theory Spec2Isabelle
  imports Main
begin

section \<open>Data model (types.ts)\<close>

text \<open>
  The five departments and the six attendance values are closed string unions in the
  source; each becomes a datatype together with the text the source uses for it.
\<close>

datatype Department = Animation | eLearning | ADNR | XR_Development | Other

definition DEPARTMENTS :: "Department list" where
  "DEPARTMENTS = [Animation, eLearning, ADNR, XR_Development, Other]"

fun department_name :: "Department \<Rightarrow> string" where
  "department_name Animation = ''Animation''"
| "department_name eLearning = ''eLearning''"
| "department_name ADNR = ''ADNR''"
| "department_name XR_Development = ''XR Development''"
| "department_name Other = ''Other''"

datatype AttendanceStatus = present | late | absent | onsite | leave | sick

fun status_name :: "AttendanceStatus \<Rightarrow> string" where
  "status_name present = ''present''"
| "status_name late = ''late''"
| "status_name absent = ''absent''"
| "status_name onsite = ''onsite''"
| "status_name leave = ''leave''"
| "status_name sick = ''sick''"

text \<open>
  \<^verbatim>\<open>interface Employee { id; name; department; status? }\<close>: the optional status is an
  option. The fields carry the prefix \<open>emp_\<close> because \<open>department\<close> is also a field of a
  submission and \<open>id\<close> is a constant of HOL.
\<close>

record Employee =
  emp_id :: string
  emp_name :: string
  emp_department :: Department
  emp_status :: "AttendanceStatus option"

text \<open>
  \<^verbatim>\<open>interface DepartmentSubmission { department; submitted; submittedAt? }\<close>. A point in
  time is kept as the text it is serialised to (the ISO string of \<^verbatim>\<open>toISOString\<close>, or the
  cell text a \<^verbatim>\<open>Date\<close> was built from).
\<close>

record DepartmentSubmission =
  department :: Department
  submitted :: bool
  submittedAt :: "string option"

section \<open>Errors, the browser store, the clock and the remote services\<close>

datatype error =
    Error string  \<comment> \<open>\<^verbatim>\<open>throw new Error(message)\<close>\<close>
  | TypeError     \<comment> \<open>raised by the runtime: a request on the \<^verbatim>\<open>null\<close> client, a read of
                      \<^verbatim>\<open>undefined.length\<close>, \<^verbatim>\<open>findIndex\<close> on a value that is no array\<close>
  | RequestError  \<comment> \<open>a request to the remote API that is rejected\<close>
  | AuthError     \<comment> \<open>an error raised by the identity library\<close>

text \<open>
  An item of \<^verbatim>\<open>localStorage\<close> is text. What the code does with it depends on what
  \<^verbatim>\<open>JSON.parse\<close> makes of it: it throws (\<open>Unparsable\<close>), it yields a value that is no array
  (\<open>NotArray\<close>), or it yields the array that \<^verbatim>\<open>JSON.stringify\<close> wrote (\<open>Parsed\<close>). The
  program writes two families of keys, \<^verbatim>\<open>attendance_{department}_{date}\<close> with an employee
  list and \<^verbatim>\<open>submissions_{date}\<close> with a submission list; each family is a map from the
  full key to its item. \<open>mockUser\<close> is the item of that name.
\<close>

datatype 'a stored = Unparsable | NotArray | Parsed 'a

datatype effect =
    ConsoleLog string              \<comment> \<open>a line of console output\<close>
  | PatchRange string string string  \<comment> \<open>worksheet id, cell address, value: an accepted PATCH\<close>
  | PostMessage string string string \<comment> \<open>team id, channel id, content: an accepted POST\<close>

text \<open>
  The state the gateway works on: the browser store and the trace of what it did to the
  outside. Of the console output the trace keeps one line, the one printed on entering
  \<^verbatim>\<open>sendAttendanceSummaryToTeams\<close>: it marks an attempt to send the summary.
\<close>

record state =
  attendance_items :: "string \<rightharpoonup> Employee list stored"
  submissions_items :: "string \<rightharpoonup> DepartmentSubmission list stored"
  mockUser :: "string option"
  trace :: "effect list"

text \<open>
  The clock as one call reads it: \<open>today\<close> is \<^verbatim>\<open>format(new Date(), 'yyyy-MM-dd')\<close>,
  \<open>now\<close> is \<^verbatim>\<open>new Date().toISOString()\<close>; \<open>hours_ago k\<close> is the time \<open>k\<close> hours before
  and \<open>random8 d\<close> the value of \<^verbatim>\<open>Math.floor(Math.random() * 8)\<close> drawn for department
  \<open>d\<close>. A call is taken not to straddle midnight.
\<close>

record clock =
  today :: string
  now :: string
  hours_ago :: "nat \<Rightarrow> string"
  random8 :: "Department \<Rightarrow> nat"

record worksheet =
  ws_id :: string
  ws_name :: string

record named =
  obj_id :: string
  displayName :: string

text \<open>
  The identity provider and the Graph API are outside the program: every answer they can
  give is a field of \<open>remote\<close>, \<open>None\<close> (or \<open>False\<close>) standing for a request that fails.
  The values of a used range are rows of text cells; a range without values behaves in
  every function below as the range with no rows.
\<close>

record remote =
  getToken :: "string option"
  get_worksheets :: "worksheet list option"
  get_usedRange :: "string \<Rightarrow> string list list option"
  patch_range :: "string \<Rightarrow> string \<Rightarrow> string \<Rightarrow> bool"
  get_joinedTeams :: "named list option"
  get_channels :: "string \<Rightarrow> named list option"
  post_message :: "string \<Rightarrow> string \<Rightarrow> string \<Rightarrow> bool"

section \<open>Helpers of the runtime\<close>

text \<open>\<^verbatim>\<open>Array.prototype.findIndex\<close>: the first index whose element passes, or \<open>-1\<close>.\<close>

fun findIndex_from :: "('a \<Rightarrow> bool) \<Rightarrow> 'a list \<Rightarrow> int \<Rightarrow> int" where
  "findIndex_from P [] i = - 1"
| "findIndex_from P (x # xs) i = (if P x then i else findIndex_from P xs (i + 1))"

definition findIndex :: "('a \<Rightarrow> bool) \<Rightarrow> 'a list \<Rightarrow> int" where
  "findIndex P xs = findIndex_from P xs 0"

text \<open>A number in a template string: its decimal digits.\<close>

fun show_nat :: "nat \<Rightarrow> string" where
  "show_nat n =
     (if n < 10 then [char_of (48 + n)]
      else show_nat (n div 10) @ [char_of (48 + n mod 10)])"

declare show_nat.simps [simp del]

definition show_int :: "int \<Rightarrow> string" where
  "show_int i = (if i < 0 then CHR ''-'' # show_nat (nat (- i)) else show_nat (nat i))"

text \<open>\<^verbatim>\<open>String.prototype.trim\<close> on the white space of ASCII.\<close>

definition is_space :: "char \<Rightarrow> bool" where
  "is_space c = (c \<in> set [CHR '' '', CHR 0x09, CHR 0x0A, CHR 0x0B, CHR 0x0C, CHR 0x0D])"

definition trim :: "string \<Rightarrow> string" where
  "trim s = rev (dropWhile is_space (rev (dropWhile is_space s)))"

text \<open>\<^verbatim>\<open>xs.join(', ')\<close>.\<close>

fun join :: "string \<Rightarrow> string list \<Rightarrow> string" where
  "join sep [] = []"
| "join sep [x] = x"
| "join sep (x # y # ys) = x @ sep @ join sep (y # ys)"

section \<open>Column letters (graphService.ts, getExcelColumnLetter)\<close>

text \<open>
  \<^verbatim>\<open>
  let columnLetter = '';
  while (columnIndex >= 0) {
    columnLetter = String.fromCharCode(65 + (columnIndex % 26)) + columnLetter;
    columnIndex = Math.floor(columnIndex / 26) - 1;
  }
  return columnLetter;
  \<close>
  The loop is a recursion on the pair of its two variables. The index is an integer;
  \<open>mod\<close> is only taken of a non-negative index, where it is the remainder of the source.
\<close>

function (domintros) columnLetter_loop :: "int \<Rightarrow> string \<Rightarrow> string" where
  "columnLetter_loop columnIndex columnLetter =
     (if columnIndex \<ge> 0
      then columnLetter_loop (columnIndex div 26 - 1)
             (char_of (65 + columnIndex mod 26) # columnLetter)
      else columnLetter)"
  by pat_completeness auto
termination
  by (relation "measure (\<lambda>(columnIndex, columnLetter). nat (columnIndex + 1))") auto

declare columnLetter_loop.simps [simp del]

definition getExcelColumnLetter :: "int \<Rightarrow> string" where
  "getExcelColumnLetter columnIndex = columnLetter_loop columnIndex []"





section \<open>The remote data gateway (graphService.ts)\<close>

subsection \<open>Client, file id and requests\<close>

text \<open>
  \<^verbatim>\<open>getAuthenticatedClient\<close> catches every error and returns \<^verbatim>\<open>null\<close> in its place: with a
  (non-empty) \<^verbatim>\<open>mockUser\<close> item and when no token can be had. A client is the token it
  was built with.
\<close>

definition getAuthenticatedClient :: "remote \<Rightarrow> state \<Rightarrow> string option" where
  "getAuthenticatedClient r s =
     (case mockUser s of
        Some mockUserJson \<Rightarrow> (if mockUserJson \<noteq> [] then None else getToken r)
      | None \<Rightarrow> getToken r)"

definition excelFileUrl :: string where
  "excelFileUrl =
     ''https://tbrconsultants.sharepoint.com/:x:/s/Rollcall/ESbU_CR_4X1OhCzh55FkDC0BwNUv9K7qYxQk7s5DRmU0Og?e=byZm4p''"

definition last_part :: "char \<Rightarrow> string \<Rightarrow> string" where
  \<comment> \<open>the last element of \<^verbatim>\<open>s.split(sep)\<close>\<close>
  "last_part sep s = rev (takeWhile (\<lambda>c. c \<noteq> sep) (rev s))"

definition first_part :: "char \<Rightarrow> string \<Rightarrow> string" where
  \<comment> \<open>\<^verbatim>\<open>s.split(sep)[0]\<close>\<close>
  "first_part sep s = takeWhile (\<lambda>c. c \<noteq> sep) s"

definition getExcelFileId :: "error + string" where
  "getExcelFileId =
     (let fileIdWithParams = last_part (CHR ''/'') excelFileUrl;
          fileId = first_part (CHR ''?'') fileIdWithParams
      in if fileId = [] then Inl (Error ''Could not extract file ID from URL'')
         else Inr fileId)"

text \<open>
  A request through the client: on the \<^verbatim>\<open>null\<close> client \<^verbatim>\<open>client.api\<close> is a
  \<open>TypeError\<close>; otherwise the remote side answers or rejects. An accepted write is
  appended to the trace.
\<close>

definition api_get :: "string option \<Rightarrow> 'a option \<Rightarrow> error + 'a" where
  "api_get client response =
     (case client of
        None \<Rightarrow> Inl TypeError
      | Some token \<Rightarrow> (case response of None \<Rightarrow> Inl RequestError | Some v \<Rightarrow> Inr v))"

definition api_patch ::
  "remote \<Rightarrow> string option \<Rightarrow> string \<Rightarrow> string \<Rightarrow> string \<Rightarrow> state \<Rightarrow> error option \<times> state" where
  "api_patch r client ws address v s =
     (case client of
        None \<Rightarrow> (Some TypeError, s)
      | Some token \<Rightarrow>
          if patch_range r ws address v
          then (None, s\<lparr>trace := trace s @ [PatchRange ws address v]\<rparr>)
          else (Some RequestError, s))"

definition api_post ::
  "remote \<Rightarrow> string option \<Rightarrow> string \<Rightarrow> string \<Rightarrow> string \<Rightarrow> state \<Rightarrow> error option \<times> state" where
  "api_post r client teamId channelId content s =
     (case client of
        None \<Rightarrow> (Some TypeError, s)
      | Some token \<Rightarrow>
          if post_message r teamId channelId content
          then (None, s\<lparr>trace := trace s @ [PostMessage teamId channelId content]\<rparr>)
          else (Some RequestError, s))"

definition find_worksheet :: "Department \<Rightarrow> worksheet list \<Rightarrow> worksheet option" where
  \<comment> \<open>\<^verbatim>\<open>worksheets.value.find((w) => w.name === department)\<close>\<close>
  "find_worksheet d worksheets = find (\<lambda>w. ws_name w = department_name d) worksheets"

definition worksheet_not_found :: "Department \<Rightarrow> error" where
  "worksheet_not_found d =
     Error (''Worksheet for department '' @ [CHR 0x22] @ department_name d @ [CHR 0x22]
            @ '' not found'')"

definition cell_at :: "string list \<Rightarrow> nat \<Rightarrow> string option" where
  \<comment> \<open>\<^verbatim>\<open>row[i]\<close>, \<open>None\<close> for \<^verbatim>\<open>undefined\<close>\<close>
  "cell_at row i = (if i < length row then Some (row ! i) else None)"

definition storageKey :: "Department \<Rightarrow> string \<Rightarrow> string" where
  "storageKey d date = ''attendance_'' @ department_name d @ ''_'' @ date"

definition submissionsKey :: "string \<Rightarrow> string" where
  "submissionsKey date = ''submissions_'' @ date"

subsection \<open>getEmployeesByDepartment and getMockEmployees\<close>

text \<open>
  The rows below the header, \<open>i\<close> counting from 1: a row whose first cell is a text with
  something other than white space in it gives an employee.
\<close>

fun employeeRows :: "Department \<Rightarrow> nat \<Rightarrow> string list list \<Rightarrow> Employee list" where
  "employeeRows d i [] = []"
| "employeeRows d i ([] # rows) = employeeRows d (i + 1) rows"
| "employeeRows d i ((cell # cells) # rows) =
     (if cell \<noteq> [] \<and> trim cell \<noteq> []
      then \<lparr>emp_id = department_name d @ ''-'' @ show_nat i, emp_name = cell,
            emp_department = d, emp_status = None\<rparr> # employeeRows d (i + 1) rows
      else employeeRows d (i + 1) rows)"

definition fetchEmployees :: "remote \<Rightarrow> state \<Rightarrow> Department \<Rightarrow> error + Employee list" where
  \<comment> \<open>the body of the \<^verbatim>\<open>try\<close> of \<^verbatim>\<open>getEmployeesByDepartment\<close>\<close>
  "fetchEmployees r s d =
     (let client = getAuthenticatedClient r s in
      case getExcelFileId of
        Inl e \<Rightarrow> Inl e
      | Inr fileId \<Rightarrow>
     (case api_get client (get_worksheets r) of
        Inl e \<Rightarrow> Inl e
      | Inr worksheets \<Rightarrow>
     (case find_worksheet d worksheets of
        None \<Rightarrow> Inl (worksheet_not_found d)
      | Some worksheet \<Rightarrow>
     (case api_get client (get_usedRange r (ws_id worksheet)) of
        Inl e \<Rightarrow> Inl e
      | Inr values \<Rightarrow>
          Inr (if length values > 1 then employeeRows d 1 (tl values) else [])))))"

fun mockEmployees :: "Department \<Rightarrow> string list" where
  "mockEmployees Animation = [''John Smith'', ''Sarah Johnson'', ''Michael Brown'', ''Emily Davis'']"
| "mockEmployees eLearning =
     [''David Wilson'', ''Jennifer Taylor'', ''Robert Martinez'', ''Lisa Anderson'']"
| "mockEmployees ADNR = [''James Thomas'', ''Patricia White'', ''Charles Harris'', ''Jessica Lewis'']"
| "mockEmployees XR_Development = [''Daniel Clark'', ''Nancy Walker'', ''Paul Hall'', ''Karen Young'']"
| "mockEmployees Other = [''Mark Allen'', ''Sandra King'', ''Kevin Wright'', ''Betty Scott'']"

definition getMockEmployees :: "Department \<Rightarrow> Employee list" where
  "getMockEmployees d =
     map (\<lambda>(index, name).
            \<lparr>emp_id = department_name d @ ''-'' @ show_nat index, emp_name = name,
             emp_department = d, emp_status = None\<rparr>)
         (enumerate 0 (mockEmployees d))"

text \<open>The \<^verbatim>\<open>catch\<close> of \<^verbatim>\<open>getEmployeesByDepartment\<close> answers every error with the mock roster.\<close>

definition getEmployeesByDepartment ::
  "remote \<Rightarrow> state \<Rightarrow> Department \<Rightarrow> error + Employee list" where
  "getEmployeesByDepartment r s d =
     (case fetchEmployees r s d of
        Inr employees \<Rightarrow> Inr employees
      | Inl error \<Rightarrow> Inr (getMockEmployees d))"

subsection \<open>getDepartmentSubmissions\<close>

definition revive :: "DepartmentSubmission \<Rightarrow> DepartmentSubmission" where
  \<comment> \<open>\<^verbatim>\<open>{...sub, submittedAt: sub.submittedAt ? new Date(sub.submittedAt) : undefined}\<close>\<close>
  "revive sub =
     sub\<lparr>submittedAt :=
           (case submittedAt sub of
              None \<Rightarrow> None
            | Some t \<Rightarrow> if t \<noteq> [] then Some t else None)\<rparr>"

definition not_submitted :: "Department \<Rightarrow> DepartmentSubmission" where
  "not_submitted d = \<lparr>department = d, submitted = False, submittedAt = None\<rparr>"

text \<open>What one worksheet says about today: the header row and the last row of its values.\<close>

definition submissionStatus :: "string \<Rightarrow> Department \<Rightarrow> string list list \<Rightarrow> DepartmentSubmission" where
  "submissionStatus date d values =
     (if values \<noteq> [] then
        let headerRow = hd values;
            todayColumnIndex = findIndex (\<lambda>cell. cell = date) headerRow
        in if todayColumnIndex \<noteq> - 1 then
             let lastRow = last values
             in (case cell_at lastRow (nat todayColumnIndex) of
                   None \<Rightarrow> not_submitted d
                 | Some stamp \<Rightarrow>
                     if cell_at lastRow 0 = Some ''Submission Status'' \<and> stamp \<noteq> []
                     then \<lparr>department = d, submitted = True, submittedAt = Some stamp\<rparr>
                     else not_submitted d)
           else not_submitted d
      else not_submitted d)"

fun excelSubmissions ::
  "remote \<Rightarrow> string option \<Rightarrow> string \<Rightarrow> Department list \<Rightarrow> error + DepartmentSubmission list" where
  "excelSubmissions r client date [] = Inr []"
| "excelSubmissions r client date (d # ds) =
     (case api_get client (get_worksheets r) of
        Inl e \<Rightarrow> Inl e
      | Inr worksheets \<Rightarrow>
     (case find_worksheet d worksheets of
        None \<Rightarrow>
          (case excelSubmissions r client date ds of
             Inl e \<Rightarrow> Inl e
           | Inr rest \<Rightarrow> Inr (not_submitted d # rest))
      | Some worksheet \<Rightarrow>
     (case api_get client (get_usedRange r (ws_id worksheet)) of
        Inl e \<Rightarrow> Inl e
      | Inr values \<Rightarrow>
          (case excelSubmissions r client date ds of
             Inl e \<Rightarrow> Inl e
           | Inr rest \<Rightarrow> Inr (submissionStatus date d values # rest)))))"

definition getMockDepartmentSubmissions :: "clock \<Rightarrow> state \<Rightarrow> DepartmentSubmission list" where
  "getMockDepartmentSubmissions clk s =
     map (\<lambda>d. case attendance_items s (storageKey d (today clk)) of
                 Some storedData \<Rightarrow>
                   \<lparr>department = d, submitted = True,
                    submittedAt = Some (hours_ago clk (random8 clk d))\<rparr>
               | None \<Rightarrow> not_submitted d)
         DEPARTMENTS"

text \<open>
  First the stored list, when it is a non-empty array; else the worksheets, whose answer
  is stored; else, on any error, the state synthesised from the attendance items.
\<close>

definition getDepartmentSubmissions ::
  "remote \<Rightarrow> clock \<Rightarrow> state \<Rightarrow> (error + DepartmentSubmission list) \<times> state" where
  "getDepartmentSubmissions r clk s =
     (let key = submissionsKey (today clk);
          fromStore = (case submissions_items s key of
                         Some (Parsed parsedSubmissions) \<Rightarrow>
                           if length parsedSubmissions > 0 then Some parsedSubmissions else None
                       | _ \<Rightarrow> None)
      in case fromStore of
           Some parsedSubmissions \<Rightarrow> (Inr (map revive parsedSubmissions), s)
         | None \<Rightarrow>
             (case (case getExcelFileId of
                      Inl e \<Rightarrow> Inl e
                    | Inr fileId \<Rightarrow>
                        excelSubmissions r (getAuthenticatedClient r s) (today clk) DEPARTMENTS) of
                Inr departmentSubmissions \<Rightarrow>
                  (Inr departmentSubmissions,
                   s\<lparr>submissions_items :=
                       (submissions_items s)(key \<mapsto> Parsed departmentSubmissions)\<rparr>)
              | Inl error \<Rightarrow> (Inr (getMockDepartmentSubmissions clk s), s)))"


subsection \<open>sendAttendanceSummaryToTeams\<close>

definition teamName :: string where
  "teamName = ''Rollcall''"

definition channelName :: string where
  "channelName = ''Attendance''"

definition getTeamId :: "remote \<Rightarrow> state \<Rightarrow> error + string" where
  "getTeamId r s =
     (case api_get (getAuthenticatedClient r s) (get_joinedTeams r) of
        Inl e \<Rightarrow> Inl e
      | Inr teams \<Rightarrow>
          (case find (\<lambda>t. displayName t = teamName) teams of
             None \<Rightarrow> Inl (Error (''Team '' @ [CHR 0x22] @ teamName @ [CHR 0x22] @ '' not found''))
           | Some team \<Rightarrow> Inr (obj_id team)))"

definition getChannelId :: "remote \<Rightarrow> state \<Rightarrow> string \<Rightarrow> error + string" where
  "getChannelId r s teamId =
     (case api_get (getAuthenticatedClient r s) (get_channels r teamId) of
        Inl e \<Rightarrow> Inl e
      | Inr channels \<Rightarrow>
          (case find (\<lambda>c. displayName c = channelName) channels of
             None \<Rightarrow>
               Inl (Error (''Channel '' @ [CHR 0x22] @ channelName @ [CHR 0x22]
                           @ '' not found in team '' @ [CHR 0x22] @ teamName @ [CHR 0x22]))
           | Some channel \<Rightarrow> Inr (obj_id channel)))"

text \<open>
  The employees of every submitted department, read back from the attendance items; an
  item that does not parse, or is no array, adds none.
\<close>

definition collectEmployees :: "state \<Rightarrow> string \<Rightarrow> DepartmentSubmission list \<Rightarrow> Employee list" where
  "collectEmployees s date departmentSubmissions =
     concat (map (\<lambda>submission.
                    if submitted submission
                    then (case attendance_items s (storageKey (department submission) date) of
                            Some (Parsed employees) \<Rightarrow> employees
                          | _ \<Rightarrow> [])
                    else [])
                 departmentSubmissions)"

text \<open>The glyphs of the message, as the bytes of their UTF-8 encoding.\<close>

definition glyph_calendar :: string where
  "glyph_calendar = [CHR 0xF0, CHR 0x9F, CHR 0x97, CHR 0x93, CHR 0xEF, CHR 0xB8, CHR 0x8F]"

fun departmentIcon :: "Department \<Rightarrow> string" where
  "departmentIcon Animation = [CHR 0xF0, CHR 0x9F, CHR 0x8E, CHR 0xA8]"
| "departmentIcon eLearning = [CHR 0xF0, CHR 0x9F, CHR 0x93, CHR 0x9A]"
| "departmentIcon ADNR = [CHR 0xF0, CHR 0x9F, CHR 0x9B, CHR 0xA0]"
| "departmentIcon XR_Development = [CHR 0xF0, CHR 0x9F, CHR 0x8F, CHR 0x97]"
| "departmentIcon Other = [CHR 0xF0, CHR 0x9F, CHR 0x8C, CHR 0x8D]"

definition glyph_present :: string where
  "glyph_present = [CHR 0xE2, CHR 0x9C, CHR 0x85]"

definition glyph_late :: string where
  "glyph_late = [CHR 0xF0, CHR 0x9F, CHR 0x95, CHR 0x90]"

definition glyph_absent :: string where
  "glyph_absent = [CHR 0xE2, CHR 0x9D, CHR 0x8C]"

definition glyph_leave :: string where
  "glyph_leave = [CHR 0xF0, CHR 0x9F, CHR 0x8C, CHR 0xB4]"

definition glyph_sick :: string where
  "glyph_sick = [CHR 0xF0, CHR 0x9F, CHR 0xA4, CHR 0x92]"

definition names_with :: "AttendanceStatus \<Rightarrow> Employee list \<Rightarrow> string" where
  \<comment> \<open>\<^verbatim>\<open>filter(e => e.status === st).map(e => e.name).join(', ') || 'None'\<close>\<close>
  "names_with st employees =
     (let names = join '', '' (map emp_name (filter (\<lambda>e. emp_status e = Some st) employees))
      in if names \<noteq> [] then names else ''None'')"

definition departmentSection :: "Department \<Rightarrow> Employee list \<Rightarrow> string" where
  "departmentSection d allEmployees =
     (let departmentEmployees = filter (\<lambda>e. emp_department e = d) allEmployees
      in departmentIcon d @ '' **'' @ department_name d @ '':**'' @ [CHR 0x0A]
         @ glyph_present @ '' Present: '' @ names_with present departmentEmployees @ [CHR 0x0A]
         @ glyph_late @ '' Late: '' @ names_with late departmentEmployees @ [CHR 0x0A]
         @ glyph_absent @ '' Absent: '' @ names_with absent departmentEmployees @ [CHR 0x0A]
         @ glyph_leave @ '' On Leave: '' @ names_with leave departmentEmployees @ [CHR 0x0A]
         @ glyph_sick @ '' Sick: '' @ names_with sick departmentEmployees @ [CHR 0x0A, CHR 0x0A])"

definition summaryMessage :: "string \<Rightarrow> Employee list \<Rightarrow> string" where
  "summaryMessage date allEmployees =
     glyph_calendar @ '' **Daily Attendance Report - '' @ date @ ''**'' @ [CHR 0x0A, CHR 0x0A]
     @ concat (map (\<lambda>d. departmentSection d allEmployees) DEPARTMENTS)"

definition sendToTeams ::
  "remote \<Rightarrow> clock \<Rightarrow> DepartmentSubmission list \<Rightarrow> state \<Rightarrow> error option \<times> state" where
  \<comment> \<open>the body of the inner \<^verbatim>\<open>try\<close>\<close>
  "sendToTeams r clk departmentSubmissions s =
     (let client = getAuthenticatedClient r s in
      case getTeamId r s of
        Inl e \<Rightarrow> (Some e, s)
      | Inr teamId \<Rightarrow>
     (case getChannelId r s teamId of
        Inl e \<Rightarrow> (Some e, s)
      | Inr channelId \<Rightarrow>
          let allEmployees = collectEmployees s (today clk) departmentSubmissions;
              message = summaryMessage (today clk) allEmployees
          in api_post r client teamId channelId message s))"

definition catch_and_log :: "error option \<times> state \<Rightarrow> error option \<times> state" where
  \<comment> \<open>\<^verbatim>\<open>try { ... } catch (error) { console.error(...) }\<close>: the error ends here\<close>
  "catch_and_log outcome =
     (case outcome of
        (Some error, s) \<Rightarrow> (None, s)
      | (None, s) \<Rightarrow> (None, s))"

definition sendAttendanceSummaryToTeams ::
  "remote \<Rightarrow> clock \<Rightarrow> DepartmentSubmission list \<Rightarrow> state \<Rightarrow> error option \<times> state" where
  "sendAttendanceSummaryToTeams r clk departmentSubmissions s =
     catch_and_log
       (let s1 = s\<lparr>trace := trace s @ [ConsoleLog ''Sending attendance summary to Teams'']\<rparr>
        in catch_and_log (sendToTeams r clk departmentSubmissions s1))"

subsection \<open>submitAttendance\<close>

definition employeeRowIndex :: "string list list \<Rightarrow> Employee \<Rightarrow> int" where
  \<comment> \<open>the inner \<^verbatim>\<open>for\<close> from row 1: \<^verbatim>\<open>i + 1\<close> at the first row whose first cell is the name\<close>
  "employeeRowIndex values employee =
     (let j = findIndex (\<lambda>row. cell_at row 0 = Some (emp_name employee)) (tl values)
      in if j = - 1 then - 1 else (j + 1) + 1)"

definition cellValue :: "Employee \<Rightarrow> string" where
  \<comment> \<open>\<^verbatim>\<open>employee.status || 'absent'\<close>\<close>
  "cellValue employee =
     (case emp_status employee of Some st \<Rightarrow> status_name st | None \<Rightarrow> ''absent'')"

fun updateEmployees ::
  "remote \<Rightarrow> string option \<Rightarrow> string \<Rightarrow> string list list \<Rightarrow> int \<Rightarrow> Employee list \<Rightarrow> state
     \<Rightarrow> error option \<times> state" where
  "updateEmployees r client ws values todayColumnIndex [] s = (None, s)"
| "updateEmployees r client ws values todayColumnIndex (employee # employees) s =
     (let rowIndex = employeeRowIndex values employee
      in if rowIndex = - 1 then updateEmployees r client ws values todayColumnIndex employees s
         else
           let columnLetter = getExcelColumnLetter todayColumnIndex;
               cellAddress = columnLetter @ show_int rowIndex
           in (case api_patch r client ws cellAddress (cellValue employee) s of
                 (Some e, s') \<Rightarrow> (Some e, s')
               | (None, s') \<Rightarrow> updateEmployees r client ws values todayColumnIndex employees s'))"

definition addHeader ::
  "remote \<Rightarrow> string option \<Rightarrow> string \<Rightarrow> string \<Rightarrow> string list list \<Rightarrow> state
     \<Rightarrow> (error + int) \<times> state" where
  \<comment> \<open>today has no column yet: the date goes into row 1 of the first free column\<close>
  "addHeader r client ws date values s =
     (case values of
        [] \<Rightarrow> (Inl TypeError, s)
      | headerRow # rows \<Rightarrow>
          let lastColumnIndex = int (length headerRow);
              nextColumnLetter = getExcelColumnLetter lastColumnIndex
          in (case api_patch r client ws (nextColumnLetter @ ''1'') date s of
                (Some e, s') \<Rightarrow> (Inl e, s')
              | (None, s') \<Rightarrow> (Inr lastColumnIndex, s')))"

definition writeAttendance ::
  "remote \<Rightarrow> string option \<Rightarrow> string \<Rightarrow> clock \<Rightarrow> string list list \<Rightarrow> Employee list \<Rightarrow> state
     \<Rightarrow> error option \<times> state" where
  \<comment> \<open>the writes of the inner \<^verbatim>\<open>try\<close>, once the worksheet and its used range are read:
      today's column, a cell for each employee, the submission status row\<close>
  "writeAttendance r client ws clk values employees s =
     (let found = (if values \<noteq> [] then findIndex (\<lambda>cell. cell = today clk) (hd values)
                   else - 1)
      in (case (if found = - 1 then addHeader r client ws (today clk) values s
                else (Inr found, s)) of
            (Inl e, s1) \<Rightarrow> (Some e, s1)
          | (Inr todayColumnIndex, s1) \<Rightarrow>
         (case updateEmployees r client ws values todayColumnIndex employees s1 of
            (Some e, s2) \<Rightarrow> (Some e, s2)
          | (None, s2) \<Rightarrow>
              let submissionStatusRowIndex = int (length values) + 1;
                  columnLetter = getExcelColumnLetter todayColumnIndex
              in (case api_patch r client ws
                         (''A'' @ show_int submissionStatusRowIndex) ''Submission Status'' s2 of
                    (Some e, s3) \<Rightarrow> (Some e, s3)
                  | (None, s3) \<Rightarrow>
                      api_patch r client ws
                        (columnLetter @ show_int submissionStatusRowIndex) (now clk) s3))))"

definition submitToExcel ::
  "remote \<Rightarrow> clock \<Rightarrow> Department \<Rightarrow> Employee list \<Rightarrow> state \<Rightarrow> error option \<times> state" where
  \<comment> \<open>the body of the inner \<^verbatim>\<open>try\<close> of \<^verbatim>\<open>submitAttendance\<close>\<close>
  "submitToExcel r clk d employees s =
     (let client = getAuthenticatedClient r s in
      case getExcelFileId of
        Inl e \<Rightarrow> (Some e, s)
      | Inr fileId \<Rightarrow>
     (case api_get client (get_worksheets r) of
        Inl e \<Rightarrow> (Some e, s)
      | Inr worksheets \<Rightarrow>
     (case find_worksheet d worksheets of
        None \<Rightarrow> (Some (worksheet_not_found d), s)
      | Some worksheet \<Rightarrow>
     (case api_get client (get_usedRange r (ws_id worksheet)) of
        Inl e \<Rightarrow> (Some e, s)
      | Inr values \<Rightarrow> writeAttendance r client (ws_id worksheet) clk values employees s))))"

text \<open>
  \<^verbatim>\<open>storedSubmissions ? JSON.parse(storedSubmissions) : []\<close> inside \<^verbatim>\<open>try\<close>, with
  \<^verbatim>\<open>[]\<close> in the \<^verbatim>\<open>catch\<close>; on a value that is no array the \<^verbatim>\<open>findIndex\<close> that follows
  is a \<open>TypeError\<close>.
\<close>

definition readSubmissions :: "state \<Rightarrow> string \<Rightarrow> error + DepartmentSubmission list" where
  "readSubmissions s key =
     (case submissions_items s key of
        None \<Rightarrow> Inr []
      | Some Unparsable \<Rightarrow> Inr []
      | Some NotArray \<Rightarrow> Inl TypeError
      | Some (Parsed submissions) \<Rightarrow> Inr submissions)"

definition markSubmitted ::
  "Department \<Rightarrow> string \<Rightarrow> DepartmentSubmission list \<Rightarrow> DepartmentSubmission list" where
  "markSubmitted d stamp submissions =
     (let departmentIndex = findIndex (\<lambda>s. department s = d) submissions
      in if departmentIndex = - 1
         then submissions @ [\<lparr>department = d, submitted = True, submittedAt = Some stamp\<rparr>]
         else submissions
                [nat departmentIndex :=
                   (submissions ! nat departmentIndex)\<lparr>submitted := True, submittedAt := Some stamp\<rparr>])"

definition allSubmitted :: "DepartmentSubmission list \<Rightarrow> bool" where
  \<comment> \<open>\<^verbatim>\<open>submissions.every(s => s.submitted)\<close>, in \<^verbatim>\<open>submitAttendance\<close> and in the tracker\<close>
  "allSubmitted submissions = list_all submitted submissions"

definition submitAttendance ::
  "remote \<Rightarrow> clock \<Rightarrow> Department \<Rightarrow> Employee list \<Rightarrow> state \<Rightarrow> (error + bool) \<times> state" where
  "submitAttendance r clk d employees s =
     (let s1 = snd (submitToExcel r clk d employees s);
          s2 = s1\<lparr>attendance_items :=
                    (attendance_items s1)(storageKey d (today clk) \<mapsto> Parsed employees)\<rparr>;
          key = submissionsKey (today clk)
      in case readSubmissions s2 key of
           Inl e \<Rightarrow> (Inl e, s2)
         | Inr stored \<Rightarrow>
             let submissions = markSubmitted d (now clk) stored;
                 s3 = s2\<lparr>submissions_items := (submissions_items s2)(key \<mapsto> Parsed submissions)\<rparr>
             in if allSubmitted submissions
                then (case sendAttendanceSummaryToTeams r clk (map revive submissions) s3 of
                        (Some e, s4) \<Rightarrow> (Inl e, s4)
                      | (None, s4) \<Rightarrow> (Inr True, s4))
                else (Inr True, s3))"

section \<open>The submission tracker (SubmissionTracker.tsx)\<close>

definition submittedCount :: "DepartmentSubmission list \<Rightarrow> nat" where
  "submittedCount submissions = length (filter submitted submissions)"

definition totalCount :: "DepartmentSubmission list \<Rightarrow> nat" where
  "totalCount submissions = length submissions"

section \<open>The attendance form (AttendanceForm, handleSubmit)\<close>



section \<open>The identity session (authService.ts)\<close>

record AccountInfo =
  username :: string
  homeAccountId :: string

record AuthenticationResult =
  account :: "AccountInfo option"
  accessToken :: string

text \<open>
  What the identity library answers: whether its initialisation resolves, whether a
  redirect result is pending, the accounts it holds, and the outcome of each way to get a
  token (\<open>None\<close> or \<open>False\<close> when it throws).
\<close>

record msal =
  msal_initialize :: bool
  handleRedirectPromise :: bool
  getAllAccounts :: "AccountInfo list"
  acquireTokenSilent :: "AccountInfo \<Rightarrow> AuthenticationResult option"
  loginRedirect :: bool
  loginPopup :: "AuthenticationResult option"

record AuthService =
  initialized :: bool
  interactionInProgress :: bool
  activeAccount :: "AccountInfo option"

definition interaction_conflict :: error where
  "interaction_conflict =
     Error ''Authentication interaction already in progress. Please try again in a moment.''"

definition initialize :: "msal \<Rightarrow> AuthService \<Rightarrow> error option \<times> AuthService" where
  "initialize m a =
     (if msal_initialize m then
        let accounts = getAllAccounts m;
            a1 = (if handleRedirectPromise m then
                    (case activeAccount a of
                       Some acc \<Rightarrow> a\<lparr>activeAccount := Some acc\<rparr>
                     | None \<Rightarrow>
                         (case accounts of
                            [] \<Rightarrow> a
                          | acc # rest \<Rightarrow> a\<lparr>activeAccount := Some acc\<rparr>))
                  else
                    (case accounts of
                       [] \<Rightarrow> a
                     | acc # rest \<Rightarrow> a\<lparr>activeAccount := Some acc\<rparr>))
        in (None, a1\<lparr>initialized := True\<rparr>)
      else (Some AuthError, a\<lparr>initialized := False\<rparr>))"

definition ensureInitialized :: "msal \<Rightarrow> AuthService \<Rightarrow> error option \<times> AuthService" where
  \<comment> \<open>waits for the initialisation when it has not come through, starting it again on failure\<close>
  "ensureInitialized m a =
     (if \<not> initialized a then
        (case initialize m a of
           (Some e, a1) \<Rightarrow> initialize m a1
         | (None, a1) \<Rightarrow> (None, a1))
      else (None, a))"

definition interactiveLogin ::
  "msal \<Rightarrow> AuthService \<Rightarrow> (error + AuthenticationResult option) \<times> AuthService" where
  \<comment> \<open>redirect first, popup when the redirect fails (the silent token request after a
      popup changes nothing, its outcome is only logged); \<^verbatim>\<open>finally\<close> clears the flag\<close>
  "interactiveLogin m a =
     (let a1 = a\<lparr>interactionInProgress := True\<rparr>;
          (outcome, a2) =
            (if loginRedirect m then (Inr None, a1)
             else (case loginPopup m of
                     None \<Rightarrow> (Inl AuthError, a1)
                   | Some response \<Rightarrow>
                       (Inr (Some response),
                        (case account response of
                           Some acc \<Rightarrow> a1\<lparr>activeAccount := Some acc\<rparr>
                         | None \<Rightarrow> a1))))
      in (outcome, a2\<lparr>interactionInProgress := False\<rparr>))"

definition loginAttempt ::
  "msal \<Rightarrow> AuthService \<Rightarrow> (error + AuthenticationResult option) \<times> AuthService" where
  \<comment> \<open>the body of the outer \<^verbatim>\<open>try\<close> of \<^verbatim>\<open>login\<close>\<close>
  "loginAttempt m a =
     (case ensureInitialized m a of
        (Some e, a1) \<Rightarrow> (Inl e, a1)
      | (None, a1) \<Rightarrow>
          if interactionInProgress a1 then (Inl interaction_conflict, a1)
          else
            (case getAllAccounts m of
               [] \<Rightarrow> interactiveLogin m a1
             | acc # rest \<Rightarrow>
                 let a2 = a1\<lparr>activeAccount := Some acc\<rparr>
                 in (case acquireTokenSilent m acc of
                       Some response \<Rightarrow> (Inr (Some response), a2)
                     | None \<Rightarrow> interactiveLogin m a2)))"

text \<open>
  \<^verbatim>\<open>catch (error) { this.interactionInProgress = false; ...; throw error; }\<close>: every error
  of the attempt passes through here on its way to the caller.
\<close>

definition login ::
  "msal \<Rightarrow> AuthService \<Rightarrow> (error + AuthenticationResult option) \<times> AuthService" where
  "login m a =
     (case loginAttempt m a of
        (Inl error, a1) \<Rightarrow> (Inl error, a1\<lparr>interactionInProgress := False\<rparr>)
      | (Inr result, a1) \<Rightarrow> (Inr result, a1))"


section \<open>Notions used to state the properties\<close>

text \<open>An attempt to send the summary shows in the trace as the line printed on entry.\<close>

definition summary_line :: effect where
  "summary_line = ConsoleLog ''Sending attendance summary to Teams''"

definition summaryAttempts :: "state \<Rightarrow> nat" where
  "summaryAttempts s = count_list (trace s) summary_line"

text \<open>
  The condition in the words of the specification: every one of the five fixed
  departments appears in the list with \<open>submitted = true\<close>.
\<close>

definition everyDepartmentSubmitted :: "DepartmentSubmission list \<Rightarrow> bool" where
  "everyDepartmentSubmitted submissions =
     list_all (\<lambda>d. list_ex (\<lambda>s. department s = d \<and> submitted s) submissions) DEPARTMENTS"


definition store_kept :: "state \<Rightarrow> state \<Rightarrow> bool" where
  "store_kept s s' =
     (attendance_items s' = attendance_items s \<and> submissions_items s' = submissions_items s
      \<and> mockUser s' = mockUser s)"

text \<open>A day of the program: submissions one after the other, each with its own answers
  of the remote side, its own clock reading and its own employee list.\<close>

fun submitAll :: "(remote \<times> clock \<times> Department \<times> Employee list) list \<Rightarrow> state \<Rightarrow> state" where
  "submitAll [] s = s"
| "submitAll ((r, clk, d, employees) # calls) s =
     submitAll calls (snd (submitAttendance r clk d employees s))"

definition call_clock :: "remote \<times> clock \<times> Department \<times> Employee list \<Rightarrow> clock" where
  "call_clock c = fst (snd c)"

definition call_department :: "remote \<times> clock \<times> Department \<times> Employee list \<Rightarrow> Department" where
  "call_department c = fst (snd (snd c))"

definition submittedDepartments :: "DepartmentSubmission list \<Rightarrow> Department set" where
  "submittedDepartments submissions = department ` {x \<in> set submissions. submitted x}"

text \<open>
  The states the program can bring the browser store into: it starts without attendance
  and submission items, and the two operations that write them are \<open>submitAttendance\<close>
  and \<open>getDepartmentSubmissions\<close>.
\<close>

inductive reachable :: "state \<Rightarrow> bool" where
  fresh: "attendance_items s = Map.empty \<Longrightarrow> submissions_items s = Map.empty \<Longrightarrow> reachable s"
| submit: "reachable s \<Longrightarrow> reachable (snd (submitAttendance r clk d employees s))"
| read: "reachable s \<Longrightarrow> reachable (snd (getDepartmentSubmissions r clk s))"

text \<open>What every reachable store satisfies: an item of submissions is the array the
  program wrote, and no department has two entries in it.\<close>

definition store_inv :: "state \<Rightarrow> bool" where
  "store_inv s =
     (\<forall>key. case submissions_items s key of
              None \<Rightarrow> True
            | Some (Parsed submissions) \<Rightarrow> distinct (map department submissions)
            | Some other \<Rightarrow> False)"

subsection \<open>Concrete inputs\<close>

definition fresh_state :: state where
  "fresh_state =
     \<lparr>attendance_items = Map.empty, submissions_items = Map.empty, mockUser = None, trace = []\<rparr>"

definition remote_down :: remote where
  \<comment> \<open>no token and every request rejected\<close>
  "remote_down =
     \<lparr>getToken = None, get_worksheets = None, get_usedRange = (\<lambda>ws. None),
      patch_range = (\<lambda>ws address v. False), get_joinedTeams = None,
      get_channels = (\<lambda>team. None), post_message = (\<lambda>team channel content. False)\<rparr>"


definition morning :: clock where
  "morning =
     \<lparr>today = ''2024-05-06'', now = ''2024-05-06T08:00:00.000Z'',
      hours_ago = (\<lambda>k. ''2024-05-06T00:00:00.000Z''), random8 = (\<lambda>d. 0)\<rparr>"

definition noon :: clock where
  "noon =
     \<lparr>today = ''2024-05-06'', now = ''2024-05-06T12:00:00.000Z'',
      hours_ago = (\<lambda>k. ''2024-05-06T04:00:00.000Z''), random8 = (\<lambda>d. 0)\<rparr>"

definition john :: Employee where
  \<comment> \<open>an employee as \<open>getMockEmployees\<close> makes it: no status chosen\<close>
  "john =
     \<lparr>emp_id = ''Animation-0'', emp_name = ''John Smith'', emp_department = Animation,
      emp_status = None\<rparr>"

definition five_pending :: "DepartmentSubmission list" where
  \<comment> \<open>the list a read of the worksheets stores on a day without submissions\<close>
  "five_pending = map not_submitted DEPARTMENTS"

definition pending_state :: state where
  \<comment> \<open>the store after a read of the worksheets on a day without submissions\<close>
  "pending_state =
     fresh_state\<lparr>submissions_items := [submissionsKey ''2024-05-06'' \<mapsto> Parsed five_pending]\<rparr>"

definition day_calls :: "(remote \<times> clock \<times> Department \<times> Employee list) list" where
  \<comment> \<open>each department submits once, the remote side unreachable\<close>
  "day_calls = map (\<lambda>d. (remote_down, morning, d, [])) DEPARTMENTS"

definition once_more :: "remote \<times> clock \<times> Department \<times> Employee list" where
  "once_more = (remote_down, noon, Other, [])"


section \<open>Properties of the column letters\<close>

lemma index_decreases:
  fixes i :: int
  shows "0 \<le> i \<Longrightarrow> i div 26 - 1 < i"
  by simp


lemma columnLetter_loop_append:
  "columnLetter_loop i acc = columnLetter_loop i [] @ acc"
proof (induction "nat (i + 1)" arbitrary: i acc rule: less_induct)
  case less
  show ?case
  proof (cases "0 \<le> i")
    case True
    let ?j = "i div 26 - 1" and ?c = "char_of (65 + i mod 26) :: char"
    from True have dec: "nat (?j + 1) < nat (i + 1)" by simp
    have "columnLetter_loop i acc = columnLetter_loop ?j (?c # acc)"
      using True by (simp add: columnLetter_loop.simps [of i acc])
    also have "\<dots> = columnLetter_loop ?j [] @ (?c # acc)"
      by (rule less [OF dec])
    also have "\<dots> = (columnLetter_loop ?j [] @ [?c]) @ acc" by simp
    also have "columnLetter_loop ?j [] @ [?c] = columnLetter_loop ?j [?c]"
      by (rule less [OF dec, symmetric])
    also have "columnLetter_loop ?j [?c] = columnLetter_loop i []"
      using True by (simp add: columnLetter_loop.simps [of i "[]"])
    finally show ?thesis .
  next
    case False
    then show ?thesis by (simp add: columnLetter_loop.simps [of i])
  qed
qed

lemma getExcelColumnLetter_negative: "i < 0 \<Longrightarrow> getExcelColumnLetter i = []"
  by (simp add: getExcelColumnLetter_def columnLetter_loop.simps [of i])

lemma getExcelColumnLetter_step:
  assumes "0 \<le> i"
  shows "getExcelColumnLetter i =
           getExcelColumnLetter (i div 26 - 1) @ [char_of (65 + i mod 26)]"
proof -
  have "getExcelColumnLetter i = columnLetter_loop (i div 26 - 1) [char_of (65 + i mod 26)]"
    using assms by (simp add: getExcelColumnLetter_def columnLetter_loop.simps [of i "[]"])
  then show ?thesis
    by (simp add: getExcelColumnLetter_def columnLetter_loop_append [symmetric])
qed










lemma length_getExcelColumnLetter:
  "length (getExcelColumnLetter i) \<le> nat (i + 1)"
proof (induction "nat (i + 1)" arbitrary: i rule: less_induct)
  case less
  show ?case
  proof (cases "0 \<le> i")
    case True
    then have dec: "nat (i div 26 - 1 + 1) < nat (i + 1)" by simp
    have "length (getExcelColumnLetter i) = length (getExcelColumnLetter (i div 26 - 1)) + 1"
      using True by (simp add: getExcelColumnLetter_step)
    also have "\<dots> \<le> nat (i div 26 - 1 + 1) + 1"
      using less [OF dec] by simp
    also have "\<dots> \<le> nat (i + 1)"
      using dec by linarith
    finally show ?thesis .
  next
    case False
    then show ?thesis by (simp add: getExcelColumnLetter_negative)
  qed
qed



text \<open>
  C10. The loop of the column-letter function terminates from every integer index and
  every accumulated text: each iteration replaces a non-negative index by the strictly
  smaller \<open>index div 26 - 1\<close>, so that at most \<open>index + 1\<close> letters are produced, and a
  negative index gives the empty text.
\<close>

theorem getExcelColumnLetter_total:
  "columnLetter_loop_dom (columnIndex, columnLetter)
   \<and> (0 \<le> columnIndex \<longrightarrow> columnIndex div 26 - 1 < columnIndex)
   \<and> length (getExcelColumnLetter columnIndex) \<le> nat (columnIndex + 1)
   \<and> (columnIndex < 0 \<longrightarrow> getExcelColumnLetter columnIndex = [])"
proof -
  have "columnLetter_loop_dom (columnIndex, columnLetter)"
  proof (induction "nat (columnIndex + 1)" arbitrary: columnIndex columnLetter rule: less_induct)
    case less
    show ?case
    proof (rule columnLetter_loop.domintros)
      assume "0 \<le> columnIndex"
      then have "nat (columnIndex div 26 - 1 + 1) < nat (columnIndex + 1)" by simp
      then show "columnLetter_loop_dom
          (columnIndex div 26 - 1, char_of (65 + columnIndex mod 26) # columnLetter)"
        by (rule less)
    qed
  qed
  then show ?thesis
    using index_decreases [of columnIndex] length_getExcelColumnLetter [of columnIndex]
      getExcelColumnLetter_negative [of columnIndex]
    by simp
qed

theorem getExcelColumnLetter_total_witness:
  "((0::int) \<le> 30 \<and> (30::int) div 26 - 1 < 30)
   \<and> ((- 5::int) < 0 \<and> getExcelColumnLetter (- 5) = [])"
  using getExcelColumnLetter_total [of 30 "[]"] getExcelColumnLetter_total [of "- 5" "[]"]
  by simp


section \<open>findIndex and the update of the stored submissions\<close>

lemma findIndex_from_eq:
  "findIndex_from P xs i =
     (if list_ex P xs then i + int (length (takeWhile (\<lambda>x. \<not> P x) xs)) else - 1)"
  by (induction xs arbitrary: i) simp_all

lemma findIndex_eq:
  "findIndex P xs = (if list_ex P xs then int (length (takeWhile (\<lambda>x. \<not> P x) xs)) else - 1)"
  by (simp add: findIndex_def findIndex_from_eq)

lemma findIndex_Nil: "findIndex P [] = - 1"
  by (simp add: findIndex_def)

lemma findIndex_Cons:
  "findIndex P (x # xs) =
     (if P x then 0 else if findIndex P xs = - 1 then - 1 else findIndex P xs + 1)"
  by (simp add: findIndex_eq)

lemma findIndex_nonneg: "findIndex P xs \<noteq> - 1 \<Longrightarrow> 0 \<le> findIndex P xs"
  by (simp add: findIndex_eq split: if_splits)

lemma markSubmitted_Nil:
  "markSubmitted d stamp [] = [\<lparr>department = d, submitted = True, submittedAt = Some stamp\<rparr>]"
  by (simp add: markSubmitted_def findIndex_Nil)

lemma markSubmitted_Cons:
  "markSubmitted d stamp (x # xs) =
     (if department x = d then x\<lparr>submitted := True, submittedAt := Some stamp\<rparr> # xs
      else x # markSubmitted d stamp xs)"
proof (cases "department x = d")
  case True
  then show ?thesis by (simp add: markSubmitted_def findIndex_Cons)
next
  case False
  show ?thesis
  proof (cases "findIndex (\<lambda>s. department s = d) xs = - 1")
    case True
    with False show ?thesis by (simp add: markSubmitted_def findIndex_Cons)
  next
    case no: False
    then have nn: "0 \<le> findIndex (\<lambda>s. department s = d) xs" by (rule findIndex_nonneg)
    then have "nat (findIndex (\<lambda>s. department s = d) xs + 1)
                 = Suc (nat (findIndex (\<lambda>s. department s = d) xs))" by simp
    with False no nn show ?thesis by (simp add: markSubmitted_def findIndex_Cons Let_def)
  qed
qed

lemma markSubmitted_not_Nil: "markSubmitted d stamp xs \<noteq> []"
  by (cases xs) (simp_all add: markSubmitted_Nil markSubmitted_Cons)

lemma find_markSubmitted:
  "\<exists>x. find (\<lambda>x. department x = d) (markSubmitted d stamp xs) = Some x
       \<and> submitted x \<and> submittedAt x = Some stamp"
  by (induction xs) (simp_all add: markSubmitted_Nil markSubmitted_Cons)

lemma departments_markSubmitted:
  "map department (markSubmitted d stamp xs) =
     (if d \<in> set (map department xs) then map department xs else map department xs @ [d])"
  by (induction xs) (auto simp add: markSubmitted_Nil markSubmitted_Cons)

lemma distinct_markSubmitted:
  "distinct (map department xs) \<Longrightarrow> distinct (map department (markSubmitted d stamp xs))"
  by (simp add: departments_markSubmitted)

lemma filter_markSubmitted:
  "distinct (map department xs) \<Longrightarrow>
   filter (\<lambda>x. department x = d) (markSubmitted d stamp xs)
     = [(case find (\<lambda>x. department x = d) xs of
           None \<Rightarrow> \<lparr>department = d, submitted = True, submittedAt = Some stamp\<rparr>
         | Some x \<Rightarrow> x\<lparr>submitted := True, submittedAt := Some stamp\<rparr>)]"
proof (induction xs)
  case Nil
  show ?case by (simp add: markSubmitted_Nil)
next
  case (Cons x xs)
  show ?case
  proof (cases "department x = d")
    case True
    with Cons.prems have "d \<notin> department ` set xs" by auto
    then have "filter (\<lambda>x. department x = d) xs = []"
      by (auto simp add: filter_empty_conv)
    with True show ?thesis by (simp add: markSubmitted_Cons)
  next
    case False
    with Cons show ?thesis by (simp add: markSubmitted_Cons)
  qed
qed


section \<open>The remote part leaves the browser store alone\<close>

lemma store_kept_refl: "store_kept s s"
  by (simp add: store_kept_def)

lemma store_kept_trans: "store_kept s s1 \<Longrightarrow> store_kept s1 s2 \<Longrightarrow> store_kept s s2"
  by (simp add: store_kept_def)

lemma store_kept_trace: "store_kept s (s\<lparr>trace := t\<rparr>)"
  by (simp add: store_kept_def)

lemma api_patch_kept: "store_kept s (snd (api_patch r client ws address v s))"
  by (simp add: api_patch_def store_kept_def split: option.splits)

lemma api_post_kept: "store_kept s (snd (api_post r client t c m s))"
  by (simp add: api_post_def store_kept_def split: option.splits)

lemma summary_line_neq: "PatchRange ws a v \<noteq> summary_line" "PostMessage t c m \<noteq> summary_line"
  by (simp_all add: summary_line_def)

lemma api_patch_attempts:
  "summaryAttempts (snd (api_patch r client ws address v s)) = summaryAttempts s"
  by (simp add: api_patch_def summaryAttempts_def summary_line_neq split: option.splits)

lemma api_post_attempts:
  "summaryAttempts (snd (api_post r client t c m s)) = summaryAttempts s"
  by (simp add: api_post_def summaryAttempts_def summary_line_neq split: option.splits)

lemma updateEmployees_kept:
  "store_kept s (snd (updateEmployees r client ws vals col employees s))
   \<and> summaryAttempts (snd (updateEmployees r client ws vals col employees s)) = summaryAttempts s"
proof (induction employees arbitrary: s)
  case Nil
  show ?case by (simp add: store_kept_refl)
next
  case (Cons e es)
  let ?p = "api_patch r client ws
        (getExcelColumnLetter col @ show_int (employeeRowIndex vals e)) (cellValue e) s"
  obtain res1 s1 where p: "?p = (res1, s1)" by (cases ?p)
  have k: "store_kept s s1" using api_patch_kept [of s r client ws _ "cellValue e"] p
    by (metis snd_conv)
  have a: "summaryAttempts s1 = summaryAttempts s"
    using api_patch_attempts [of r client ws _ "cellValue e" s] p by (metis snd_conv)
  show ?case
  proof (cases "employeeRowIndex vals e = - 1")
    case True
    with Cons show ?thesis by simp
  next
    case False
    show ?thesis
    proof (cases res1)
      case None
      then have "updateEmployees r client ws vals col (e # es) s
                   = updateEmployees r client ws vals col es s1"
        using False p by (simp add: Let_def)
      with Cons.IH [of s1] k a show ?thesis
        by (auto intro: store_kept_trans)
    next
      case (Some err)
      then have "snd (updateEmployees r client ws vals col (e # es) s) = s1"
        using False p by (simp add: Let_def)
      with k a show ?thesis by simp
    qed
  qed
qed

lemma addHeader_kept:
  "store_kept s (snd (addHeader r client ws date vals s))
   \<and> summaryAttempts (snd (addHeader r client ws date vals s)) = summaryAttempts s"
proof (cases vals)
  case Nil
  then show ?thesis by (simp add: addHeader_def store_kept_refl)
next
  case (Cons headerRow rows)
  let ?p = "api_patch r client ws (getExcelColumnLetter (int (length headerRow)) @ ''1'') date s"
  have "snd (addHeader r client ws date vals s) = snd ?p"
    using Cons by (simp add: addHeader_def Let_def split: prod.splits option.splits)
  then show ?thesis
    using api_patch_kept [of s r client ws _ date] api_patch_attempts [of r client ws _ date s]
    by simp
qed

lemma writeAttendance_kept:
  "store_kept s (snd (writeAttendance r client ws clk vals employees s))
   \<and> summaryAttempts (snd (writeAttendance r client ws clk vals employees s)) = summaryAttempts s"
proof -
  define quiet where "quiet s' \<longleftrightarrow> store_kept s s' \<and> summaryAttempts s' = summaryAttempts s" for s'
  have q0: "quiet s" by (simp add: quiet_def store_kept_refl)
  have qp: "quiet (snd (api_patch r client ws a v s'))" if "quiet s'" for a v s'
    using that api_patch_kept [of s' r client ws a v] api_patch_attempts [of r client ws a v s']
    by (auto simp add: quiet_def intro: store_kept_trans)
  have qu: "quiet (snd (updateEmployees r client ws vals col employees s'))"
    if "quiet s'" for col s'
    using that updateEmployees_kept [of s' r client ws vals col employees]
    by (auto simp add: quiet_def intro: store_kept_trans)
  define found where
    "found = (if vals \<noteq> [] then findIndex (\<lambda>cell. cell = today clk) (hd vals) else - 1)"
  define h where
    "h = (if found = - 1 then addHeader r client ws (today clk) vals s else (Inr found, s))"
  have qh: "quiet (snd h)"
    using addHeader_kept [of s r client ws "today clk" vals] q0
    by (simp add: h_def quiet_def)
  obtain hres s1 where h: "h = (hres, s1)" by (cases h)
  with qh have q1: "quiet s1" by simp
  have w: "writeAttendance r client ws clk vals employees s =
     (case h of
        (Inl e, s1) \<Rightarrow> (Some e, s1)
      | (Inr todayColumnIndex, s1) \<Rightarrow>
         (case updateEmployees r client ws vals todayColumnIndex employees s1 of
            (Some e, s2) \<Rightarrow> (Some e, s2)
          | (None, s2) \<Rightarrow>
              (case api_patch r client ws
                         (''A'' @ show_int (int (length vals) + 1)) ''Submission Status'' s2 of
                    (Some e, s3) \<Rightarrow> (Some e, s3)
                  | (None, s3) \<Rightarrow>
                      api_patch r client ws
                        (getExcelColumnLetter todayColumnIndex @ show_int (int (length vals) + 1))
                        (now clk) s3)))"
    unfolding writeAttendance_def h_def found_def Let_def by (rule refl)
  have "quiet (snd (writeAttendance r client ws clk vals employees s))"
  proof (cases hres)
    case (Inl e)
    with h q1 show ?thesis by (simp add: w)
  next
    case (Inr col)
    obtain ures s2 where u: "updateEmployees r client ws vals col employees s1 = (ures, s2)"
      by (cases "updateEmployees r client ws vals col employees s1")
    with qu [OF q1, of col] have q2: "quiet s2" by simp
    show ?thesis
    proof (cases ures)
      case (Some e)
      with h Inr u q2 show ?thesis by (simp add: w)
    next
      case None
      obtain pres s3 where p: "api_patch r client ws
          (''A'' @ show_int (int (length vals) + 1)) ''Submission Status'' s2 = (pres, s3)"
        by (cases "api_patch r client ws
          (''A'' @ show_int (int (length vals) + 1)) ''Submission Status'' s2")
      with qp [OF q2, of "''A'' @ show_int (int (length vals) + 1)" "''Submission Status''"]
      have q3: "quiet s3" by simp
      show ?thesis
      proof (cases pres)
        case (Some e)
        with h Inr u None p q3 show ?thesis by (simp add: w)
      next
        case pn: None
        with h Inr u None p qp [OF q3] show ?thesis by (simp add: w)
      qed
    qed
  qed
  then show ?thesis by (simp add: quiet_def)
qed

lemma getExcelFileId_value:
  "getExcelFileId = Inr ''ESbU_CR_4X1OhCzh55FkDC0BwNUv9K7qYxQk7s5DRmU0Og''"
  by (simp add: getExcelFileId_def excelFileUrl_def last_part_def first_part_def)

lemma submitToExcel_kept:
  "store_kept s (snd (submitToExcel r clk d employees s))
   \<and> summaryAttempts (snd (submitToExcel r clk d employees s)) = summaryAttempts s"
  using writeAttendance_kept [of s r "getAuthenticatedClient r s" _ clk _ employees]
  by (simp add: submitToExcel_def getExcelFileId_value store_kept_refl Let_def
           split: sum.splits option.splits)


section \<open>The summary send and one call of submitAttendance\<close>

lemma sendToTeams_kept:
  "store_kept s (snd (sendToTeams r clk subs s))
   \<and> summaryAttempts (snd (sendToTeams r clk subs s)) = summaryAttempts s"
  using api_post_kept [of s r "getAuthenticatedClient r s"]
        api_post_attempts [of r "getAuthenticatedClient r s" _ _ _ s]
  by (simp add: sendToTeams_def Let_def store_kept_refl split: sum.splits)

lemma fst_catch_and_log: "fst (catch_and_log outcome) = None"
  by (cases outcome) (simp add: catch_and_log_def split: option.splits)

lemma snd_catch_and_log: "snd (catch_and_log outcome) = snd outcome"
  by (cases outcome) (simp add: catch_and_log_def split: option.splits)

lemma sendAttendanceSummaryToTeams_None:
  "fst (sendAttendanceSummaryToTeams r clk subs s) = None"
  by (simp add: sendAttendanceSummaryToTeams_def fst_catch_and_log)

lemma sendAttendanceSummaryToTeams_kept:
  "store_kept s (snd (sendAttendanceSummaryToTeams r clk subs s))"
proof -
  let ?s1 = "s\<lparr>trace := trace s @ [ConsoleLog ''Sending attendance summary to Teams'']\<rparr>"
  have "store_kept s ?s1" by (rule store_kept_trace)
  moreover have "store_kept ?s1 (snd (sendToTeams r clk subs ?s1))"
    using sendToTeams_kept [of ?s1 r clk subs] by simp
  ultimately show ?thesis
    by (simp add: sendAttendanceSummaryToTeams_def snd_catch_and_log Let_def)
       (rule store_kept_trans)
qed

lemma sendAttendanceSummaryToTeams_attempts:
  "summaryAttempts (snd (sendAttendanceSummaryToTeams r clk subs s)) = summaryAttempts s + 1"
proof -
  let ?s1 = "s\<lparr>trace := trace s @ [ConsoleLog ''Sending attendance summary to Teams'']\<rparr>"
  have "summaryAttempts ?s1 = summaryAttempts s + 1"
    by (simp add: summaryAttempts_def summary_line_def)
  moreover have "summaryAttempts (snd (sendToTeams r clk subs ?s1)) = summaryAttempts ?s1"
    using sendToTeams_kept [of ?s1 r clk subs] by simp
  ultimately show ?thesis
    by (simp add: sendAttendanceSummaryToTeams_def snd_catch_and_log Let_def)
qed

text \<open>One call of \<open>submitAttendance\<close>, seen from the store.\<close>

lemma submitAttendance_throws:
  assumes "readSubmissions s (submissionsKey (today clk)) = Inl e"
  shows "fst (submitAttendance r clk d employees s) = Inl e"
proof -
  let ?s1 = "snd (submitToExcel r clk d employees s)"
  have "submissions_items ?s1 = submissions_items s"
    using submitToExcel_kept [of s r clk d employees] by (simp add: store_kept_def)
  then show ?thesis
    using assms by (simp add: submitAttendance_def Let_def readSubmissions_def)
qed

lemma submitAttendance_returns:
  assumes "readSubmissions s (submissionsKey (today clk)) = Inr stored"
  shows "fst (submitAttendance r clk d employees s) = Inr True"
    and "submissions_items (snd (submitAttendance r clk d employees s)) =
           (submissions_items s)(submissionsKey (today clk) \<mapsto>
              Parsed (markSubmitted d (now clk) stored))"
    and "attendance_items (snd (submitAttendance r clk d employees s)) =
           (attendance_items s)(storageKey d (today clk) \<mapsto> Parsed employees)"
    and "mockUser (snd (submitAttendance r clk d employees s)) = mockUser s"
    and "summaryAttempts (snd (submitAttendance r clk d employees s)) =
           summaryAttempts s + (if allSubmitted (markSubmitted d (now clk) stored) then 1 else 0)"
proof -
  let ?key = "submissionsKey (today clk)"
  let ?s1 = "snd (submitToExcel r clk d employees s)"
  let ?s2 = "?s1\<lparr>attendance_items :=
                    (attendance_items ?s1)(storageKey d (today clk) \<mapsto> Parsed employees)\<rparr>"
  let ?subs = "markSubmitted d (now clk) stored"
  let ?s3 = "?s2\<lparr>submissions_items := (submissions_items ?s2)(?key \<mapsto> Parsed ?subs)\<rparr>"
  let ?send = "sendAttendanceSummaryToTeams r clk (map revive ?subs) ?s3"
  have k1: "store_kept s ?s1" and a1: "summaryAttempts ?s1 = summaryAttempts s"
    using submitToExcel_kept [of s r clk d employees] by simp_all
  have rd: "readSubmissions ?s2 ?key = Inr stored"
    using assms(1) k1 by (simp add: readSubmissions_def store_kept_def)
  have a3: "summaryAttempts ?s3 = summaryAttempts s"
    using a1 by (simp add: summaryAttempts_def)
  have unfold: "submitAttendance r clk d employees s =
      (if allSubmitted ?subs
       then (case ?send of (Some e, s4) \<Rightarrow> (Inl e, s4) | (None, s4) \<Rightarrow> (Inr True, s4))
       else (Inr True, ?s3))"
    using rd unfolding submitAttendance_def Let_def by simp
  have sendres: "?send = (None, snd ?send)"
    using sendAttendanceSummaryToTeams_None [of r clk "map revive ?subs" ?s3]
    by (cases ?send) simp
  have result: "submitAttendance r clk d employees s =
      (Inr True, if allSubmitted ?subs then snd ?send else ?s3)"
    using sendres unfold by (cases "allSubmitted ?subs") (simp_all split: prod.splits)
  have k4: "store_kept ?s3 (snd ?send)"
    by (rule sendAttendanceSummaryToTeams_kept)
  have a4: "summaryAttempts (snd ?send) = summaryAttempts s + 1"
    using sendAttendanceSummaryToTeams_attempts [of r clk "map revive ?subs" ?s3] a3 by simp
  show "fst (submitAttendance r clk d employees s) = Inr True"
    by (simp add: result)
  show "submissions_items (snd (submitAttendance r clk d employees s)) =
          (submissions_items s)(?key \<mapsto> Parsed ?subs)"
    using k1 k4 by (simp add: result store_kept_def)
  show "attendance_items (snd (submitAttendance r clk d employees s)) =
           (attendance_items s)(storageKey d (today clk) \<mapsto> Parsed employees)"
    using k1 k4 by (simp add: result store_kept_def)
  show "mockUser (snd (submitAttendance r clk d employees s)) = mockUser s"
    using k1 k4 by (simp add: result store_kept_def)
  show "summaryAttempts (snd (submitAttendance r clk d employees s)) =
           summaryAttempts s + (if allSubmitted ?subs then 1 else 0)"
    using a3 a4 by (simp add: result)
qed


section \<open>Submission and report\<close>

lemma readSubmissions_Inr_cases:
  "submissions_items s key \<noteq> Some NotArray \<Longrightarrow> \<exists>stored. readSubmissions s key = Inr stored"
  by (simp add: readSubmissions_def split: option.splits stored.splits)

lemma department_revive [simp]: "department (revive x) = department x"
  by (simp add: revive_def)

lemma submitted_revive [simp]: "submitted (revive x) = submitted x"
  by (simp add: revive_def)

lemma find_map_revive:
  "find (\<lambda>x. department x = d) (map revive xs) = map_option revive (find (\<lambda>x. department x = d) xs)"
  by (induction xs) simp_all

lemma getDepartmentSubmissions_stored:
  assumes "submissions_items s (submissionsKey (today clk)) = Some (Parsed xs)" "xs \<noteq> []"
  shows "getDepartmentSubmissions r clk s = (Inr (map revive xs), s)"
  using assms by (simp add: getDepartmentSubmissions_def Let_def)

text \<open>
  C1. When \<open>submitAttendance\<close> for department \<open>d\<close> has completed, every later
  \<open>getDepartmentSubmissions\<close> of the same calendar day, whatever the remote side answers
  to either call, returns a list in which \<open>d\<close> appears and the entry of \<open>d\<close> the list
  shows has \<open>submitted = true\<close>: the submission is written to the local store and the
  non-empty stored list is what is reported.
\<close>

theorem submitted_department_is_reported:
  assumes "submitAttendance r clk d employees s = (Inr ok, s')"
    and "today clk' = today clk"
  shows "\<exists>submissions entry.
           getDepartmentSubmissions r' clk' s' = (Inr submissions, s')
           \<and> find (\<lambda>x. department x = d) submissions = Some entry
           \<and> submitted entry"
proof -
  let ?key = "submissionsKey (today clk)"
  have "\<exists>stored. readSubmissions s ?key = Inr stored"
  proof (cases "readSubmissions s ?key")
    case (Inl e)
    from submitAttendance_throws [OF this, of r d employees] assms(1) show ?thesis by simp
  next
    case (Inr stored)
    then show ?thesis by blast
  qed
  then obtain stored where rd: "readSubmissions s ?key = Inr stored" ..
  let ?subs = "markSubmitted d (now clk) stored"
  have "submissions_items s' ?key = Some (Parsed ?subs)"
    using submitAttendance_returns(2) [OF rd, of r d employees] assms(1) by simp
  moreover have "?subs \<noteq> []" by (rule markSubmitted_not_Nil)
  ultimately have g: "getDepartmentSubmissions r' clk' s' = (Inr (map revive ?subs), s')"
    using getDepartmentSubmissions_stored [of s' clk' ?subs r'] assms(2) by simp
  obtain x where "find (\<lambda>x. department x = d) ?subs = Some x" "submitted x"
    using find_markSubmitted [of d "now clk" stored] by blast
  then have "find (\<lambda>x. department x = d) (map revive ?subs) = Some (revive x)"
    "submitted (revive x)"
    by (simp_all add: find_map_revive)
  with g show ?thesis by blast
qed

theorem submitted_department_is_reported_witness:
  "submitAttendance remote_down morning Animation [john] fresh_state
     = (Inr True, snd (submitAttendance remote_down morning Animation [john] fresh_state))
   \<and> today noon = today morning
   \<and> (\<exists>submissions entry.
         getDepartmentSubmissions remote_down noon
             (snd (submitAttendance remote_down morning Animation [john] fresh_state))
           = (Inr submissions, snd (submitAttendance remote_down morning Animation [john] fresh_state))
         \<and> find (\<lambda>x. department x = Animation) submissions = Some entry
         \<and> submitted entry)"
proof -
  have rd: "readSubmissions fresh_state (submissionsKey (today morning)) = Inr []"
    by (simp add: readSubmissions_def fresh_state_def)
  have run: "submitAttendance remote_down morning Animation [john] fresh_state
     = (Inr True, snd (submitAttendance remote_down morning Animation [john] fresh_state))"
    using submitAttendance_returns(1) [OF rd, of remote_down Animation "[john]"]
    by (simp add: prod_eq_iff)
  have day: "today noon = today morning"
    by (simp add: noon_def morning_def)
  from submitted_department_is_reported [OF run day, of remote_down] run day
  show ?thesis by blast
qed

text \<open>
  C9. \<open>sendAttendanceSummaryToTeams\<close> raises nothing, whatever its input and whatever
  the remote side answers; and a \<open>submitAttendance\<close> that gets as far as the summary
  (today's stored submissions can be read) has persisted the attendance record and the
  submission and returns \<open>true\<close>, with any outcome of the summary send.
\<close>

theorem summary_failure_never_surfaces:
  "fst (sendAttendanceSummaryToTeams r clk departmentSubmissions s) = None
   \<and> (submissions_items s (submissionsKey (today clk)) \<noteq> Some NotArray \<longrightarrow>
        fst (submitAttendance r clk d employees s) = Inr True
        \<and> attendance_items (snd (submitAttendance r clk d employees s)) (storageKey d (today clk))
            = Some (Parsed employees)
        \<and> (\<exists>submissions.
              submissions_items (snd (submitAttendance r clk d employees s))
                (submissionsKey (today clk)) = Some (Parsed submissions)))"
proof -
  have "fst (submitAttendance r clk d employees s) = Inr True
        \<and> attendance_items (snd (submitAttendance r clk d employees s)) (storageKey d (today clk))
            = Some (Parsed employees)
        \<and> (\<exists>submissions.
              submissions_items (snd (submitAttendance r clk d employees s))
                (submissionsKey (today clk)) = Some (Parsed submissions))"
    if "submissions_items s (submissionsKey (today clk)) \<noteq> Some NotArray"
  proof -
    from readSubmissions_Inr_cases [OF that]
    obtain stored where rd: "readSubmissions s (submissionsKey (today clk)) = Inr stored" ..
    from submitAttendance_returns(1,2,3) [OF rd, of r d employees] show ?thesis by simp
  qed
  then show ?thesis
    using sendAttendanceSummaryToTeams_None [of r clk departmentSubmissions s] by blast
qed

theorem summary_failure_never_surfaces_witness:
  "submissions_items fresh_state (submissionsKey (today morning)) \<noteq> Some NotArray
   \<and> fst (sendAttendanceSummaryToTeams remote_down morning [] fresh_state) = None
   \<and> fst (submitAttendance remote_down morning Animation [john] fresh_state) = Inr True
   \<and> fst (sendToTeams remote_down morning [] fresh_state) = Some TypeError"
proof -
  have a: "submissions_items fresh_state (submissionsKey (today morning)) \<noteq> Some NotArray"
    by (simp add: fresh_state_def)
  have b: "fst (sendToTeams remote_down morning [] fresh_state) = Some TypeError"
    by (simp add: sendToTeams_def getTeamId_def api_get_def getAuthenticatedClient_def
          remote_down_def fresh_state_def)
  from summary_failure_never_surfaces [of remote_down morning "[]" fresh_state Animation "[john]"]
    a b show ?thesis by blast
qed


section \<open>An invariant of the reachable stores\<close>

lemma department_not_submitted [simp]: "department (not_submitted d) = d"
  by (simp add: not_submitted_def)

lemma department_submissionStatus [simp]: "department (submissionStatus date d vals) = d"
  by (simp add: submissionStatus_def Let_def split: option.splits)

lemma excelSubmissions_departments:
  "excelSubmissions r client date ds = Inr xs \<Longrightarrow> map department xs = ds"
proof (induction ds arbitrary: xs)
  case Nil
  then show ?case by simp
next
  case (Cons d ds)
  from Cons.prems obtain rest y where "excelSubmissions r client date ds = Inr rest"
    "xs = y # rest" "department y = d"
    by (auto split: sum.splits option.splits)
  with Cons.IH [of rest] show ?case by simp
qed

lemma distinct_DEPARTMENTS: "distinct DEPARTMENTS"
  by (simp add: DEPARTMENTS_def)

lemma store_inv_update:
  "store_inv s \<Longrightarrow> distinct (map department xs) \<Longrightarrow>
   submissions_items s' = (submissions_items s)(key \<mapsto> Parsed xs) \<Longrightarrow> store_inv s'"
  by (simp add: store_inv_def)

lemma store_inv_read:
  assumes "store_inv s"
  shows "\<exists>stored. readSubmissions s key = Inr stored \<and> distinct (map department stored)"
proof (cases "submissions_items s key")
  case None
  then show ?thesis by (simp add: readSubmissions_def)
next
  case (Some item)
  with assms have "case item of Parsed xs \<Rightarrow> distinct (map department xs) | _ \<Rightarrow> False"
    by (auto simp add: store_inv_def dest: spec [of _ key])
  with Some show ?thesis by (cases item) (simp_all add: readSubmissions_def)
qed

lemma submitAttendance_inv:
  assumes "store_inv s"
  shows "store_inv (snd (submitAttendance r clk d employees s))"
proof -
  from store_inv_read [OF assms]
  obtain stored where rd: "readSubmissions s (submissionsKey (today clk)) = Inr stored"
    and di: "distinct (map department stored)" by blast
  from di have "distinct (map department (markSubmitted d (now clk) stored))"
    by (rule distinct_markSubmitted)
  with assms show ?thesis
    by (rule store_inv_update) (rule submitAttendance_returns(2) [OF rd])
qed

lemma getDepartmentSubmissions_inv:
  assumes "store_inv s"
  shows "store_inv (snd (getDepartmentSubmissions r clk s))"
proof -
  let ?key = "submissionsKey (today clk)"
  let ?x = "excelSubmissions r (getAuthenticatedClient r s) (today clk) DEPARTMENTS"
  show ?thesis
  proof (cases "\<exists>xs. submissions_items s ?key = Some (Parsed xs) \<and> xs \<noteq> []")
    case True
    then obtain xs where "submissions_items s ?key = Some (Parsed xs)" "xs \<noteq> []" by blast
    from getDepartmentSubmissions_stored [OF this] assms show ?thesis by simp
  next
    case False
    then have none: "(case submissions_items s ?key of
                         Some (Parsed parsedSubmissions) \<Rightarrow>
                           if length parsedSubmissions > 0 then Some parsedSubmissions else None
                       | _ \<Rightarrow> None) = None"
      by (auto split: option.splits stored.splits)
    show ?thesis
    proof (cases ?x)
      case (Inl e)
      with none have "snd (getDepartmentSubmissions r clk s) = s"
        by (simp add: getDepartmentSubmissions_def Let_def getExcelFileId_value)
      with assms show ?thesis by simp
    next
      case (Inr xs)
      with none have "submissions_items (snd (getDepartmentSubmissions r clk s))
                        = (submissions_items s)(?key \<mapsto> Parsed xs)"
        by (simp add: getDepartmentSubmissions_def Let_def getExcelFileId_value)
      moreover have "distinct (map department xs)"
        using excelSubmissions_departments [OF Inr] distinct_DEPARTMENTS by simp
      ultimately show ?thesis using assms by (auto intro: store_inv_update)
    qed
  qed
qed

lemma reachable_inv: "reachable s \<Longrightarrow> store_inv s"
proof (induction rule: reachable.induct)
  case (fresh s)
  then show ?case by (simp add: store_inv_def)
next
  case (submit s r clk d employees)
  then show ?case by (simp add: submitAttendance_inv)
next
  case (read s r clk)
  then show ?case by (simp add: getDepartmentSubmissions_inv)
qed

text \<open>
  C4. From every state the program can reach, two calls of \<open>submitAttendance\<close> for the
  same department \<open>d\<close> on one calendar day both return \<open>true\<close>; after the first the
  stored list of the day has exactly one entry for \<open>d\<close>, and after the second it has the
  same departments in the same places, still exactly one entry for \<open>d\<close>, and that entry
  is submitted with the time of the second call.
\<close>

theorem resubmission_keeps_one_entry:
  assumes "reachable s"
    and "today clk2 = today clk1"
    and "s1 = snd (submitAttendance r1 clk1 d employees1 s)"
    and "s2 = snd (submitAttendance r2 clk2 d employees2 s1)"
  shows "fst (submitAttendance r1 clk1 d employees1 s) = Inr True
     \<and> fst (submitAttendance r2 clk2 d employees2 s1) = Inr True
     \<and> (\<exists>submissions1 submissions2 entry.
           submissions_items s1 (submissionsKey (today clk1)) = Some (Parsed submissions1)
         \<and> submissions_items s2 (submissionsKey (today clk1)) = Some (Parsed submissions2)
         \<and> length (filter (\<lambda>x. department x = d) submissions1) = 1
         \<and> filter (\<lambda>x. department x = d) submissions2 = [entry]
         \<and> submitted entry \<and> submittedAt entry = Some (now clk2)
         \<and> map department submissions2 = map department submissions1)"
proof -
  let ?key = "submissionsKey (today clk1)"
  from store_inv_read [OF reachable_inv [OF assms(1)]]
  obtain stored where rd: "readSubmissions s ?key = Inr stored"
    and di: "distinct (map department stored)" by blast
  let ?subs1 = "markSubmitted d (now clk1) stored"
  let ?subs2 = "markSubmitted d (now clk2) ?subs1"
  have ok1: "fst (submitAttendance r1 clk1 d employees1 s) = Inr True"
    by (rule submitAttendance_returns(1) [OF rd])
  have st1: "submissions_items s1 ?key = Some (Parsed ?subs1)"
    using submitAttendance_returns(2) [OF rd, of r1 d employees1] assms(3) by simp
  then have rd2: "readSubmissions s1 (submissionsKey (today clk2)) = Inr ?subs1"
    using assms(2) by (simp add: readSubmissions_def)
  have ok2: "fst (submitAttendance r2 clk2 d employees2 s1) = Inr True"
    by (rule submitAttendance_returns(1) [OF rd2])
  have st2: "submissions_items s2 ?key = Some (Parsed ?subs2)"
    using submitAttendance_returns(2) [OF rd2, of r2 d employees2] assms(2,4) by simp
  have di1: "distinct (map department ?subs1)"
    using di by (rule distinct_markSubmitted)
  have one1: "length (filter (\<lambda>x. department x = d) ?subs1) = 1"
    using filter_markSubmitted [OF di, of d "now clk1"] by simp
  obtain x where x: "find (\<lambda>x. department x = d) ?subs1 = Some x"
    using find_markSubmitted [of d "now clk1" stored] by blast
  then have one2: "filter (\<lambda>x. department x = d) ?subs2
                     = [x\<lparr>submitted := True, submittedAt := Some (now clk2)\<rparr>]"
    using filter_markSubmitted [OF di1, of d "now clk2"] by simp
  have "d \<in> set (map department ?subs1)"
    by (simp add: departments_markSubmitted)
  then have same: "map department ?subs2 = map department ?subs1"
    by (simp add: departments_markSubmitted)
  from ok1 ok2 st1 st2 one1 one2 same show ?thesis
    by (intro conjI exI [of _ ?subs1] exI [of _ ?subs2]
          exI [of _ "x\<lparr>submitted := True, submittedAt := Some (now clk2)\<rparr>"]) simp_all
qed

theorem resubmission_keeps_one_entry_witness:
  "reachable fresh_state \<and> today noon = today morning
   \<and> fst (submitAttendance remote_down morning Animation [john] fresh_state) = Inr True
   \<and> fst (submitAttendance remote_down noon Animation [john]
             (snd (submitAttendance remote_down morning Animation [john] fresh_state))) = Inr True
   \<and> (\<exists>submissions1 submissions2 entry.
           submissions_items (snd (submitAttendance remote_down morning Animation [john] fresh_state))
             (submissionsKey (today morning)) = Some (Parsed submissions1)
         \<and> submissions_items
             (snd (submitAttendance remote_down noon Animation [john]
                (snd (submitAttendance remote_down morning Animation [john] fresh_state))))
             (submissionsKey (today morning)) = Some (Parsed submissions2)
         \<and> length (filter (\<lambda>x. department x = Animation) submissions1) = 1
         \<and> filter (\<lambda>x. department x = Animation) submissions2 = [entry]
         \<and> submitted entry \<and> submittedAt entry = Some (now noon)
         \<and> map department submissions2 = map department submissions1)"
proof -
  have r: "reachable fresh_state"
    by (rule reachable.fresh) (simp_all add: fresh_state_def)
  have day: "today noon = today morning"
    by (simp add: noon_def morning_def)
  from resubmission_keeps_one_entry [OF r day refl refl] r day show ?thesis
    by blast
qed


section \<open>The mock roster\<close>

lemma length_getMockEmployees: "length (getMockEmployees d) = 4"
  by (cases d) (simp_all add: getMockEmployees_def)

lemma department_getMockEmployees:
  "list_all (\<lambda>e. emp_department e = d) (getMockEmployees d)"
  by (simp add: getMockEmployees_def list_all_iff split_beta)

lemma fetchEmployees_no_client:
  "getAuthenticatedClient r s = None \<Longrightarrow> fetchEmployees r s d = Inl TypeError"
  by (simp add: fetchEmployees_def getExcelFileId_value api_get_def Let_def)

lemma fetchEmployees_no_worksheets:
  "get_worksheets r = None \<Longrightarrow> \<exists>e. fetchEmployees r s d = Inl e"
  by (cases "getAuthenticatedClient r s")
    (simp_all add: fetchEmployees_def getExcelFileId_value api_get_def Let_def)

lemma fetchEmployees_missing_worksheet:
  "get_worksheets r = Some worksheets \<Longrightarrow> find_worksheet d worksheets = None \<Longrightarrow>
   \<exists>e. fetchEmployees r s d = Inl e"
  by (cases "getAuthenticatedClient r s")
    (simp_all add: fetchEmployees_def getExcelFileId_value api_get_def Let_def)

lemma fetchEmployees_no_range:
  "get_worksheets r = Some worksheets \<Longrightarrow> find_worksheet d worksheets = Some worksheet \<Longrightarrow>
   get_usedRange r (ws_id worksheet) = None \<Longrightarrow> \<exists>e. fetchEmployees r s d = Inl e"
  by (cases "getAuthenticatedClient r s")
    (simp_all add: fetchEmployees_def getExcelFileId_value api_get_def Let_def)

text \<open>
  C7. \<open>getEmployeesByDepartment\<close> never fails. Whenever the remote read fails, and it
  does without an authenticated client, when the worksheets cannot be listed, when the
  department has no worksheet and when its used range cannot be read, the result is the
  built-in mock roster of the department, which depends on the department alone, has
  four employees and gives each of them that department.
\<close>

theorem listEmployees_falls_back_to_mock_roster:
  "(\<exists>employees. getEmployeesByDepartment r s d = Inr employees)
   \<and> (\<forall>e. fetchEmployees r s d = Inl e \<longrightarrow>
          getEmployeesByDepartment r s d = Inr (getMockEmployees d))
   \<and> (getAuthenticatedClient r s = None \<longrightarrow> (\<exists>e. fetchEmployees r s d = Inl e))
   \<and> (get_worksheets r = None \<longrightarrow> (\<exists>e. fetchEmployees r s d = Inl e))
   \<and> (\<forall>worksheets. get_worksheets r = Some worksheets \<and> find_worksheet d worksheets = None
          \<longrightarrow> (\<exists>e. fetchEmployees r s d = Inl e))
   \<and> (\<forall>worksheets worksheet.
          get_worksheets r = Some worksheets \<and> find_worksheet d worksheets = Some worksheet
          \<and> get_usedRange r (ws_id worksheet) = None
          \<longrightarrow> (\<exists>e. fetchEmployees r s d = Inl e))
   \<and> length (getMockEmployees d) = 4
   \<and> list_all (\<lambda>e. emp_department e = d) (getMockEmployees d)"
proof -
  have "\<exists>employees. getEmployeesByDepartment r s d = Inr employees"
    by (simp add: getEmployeesByDepartment_def split: sum.splits)
  moreover have "\<forall>e. fetchEmployees r s d = Inl e \<longrightarrow>
          getEmployeesByDepartment r s d = Inr (getMockEmployees d)"
    by (simp add: getEmployeesByDepartment_def)
  ultimately show ?thesis
    using fetchEmployees_no_client [of r s d] fetchEmployees_no_worksheets [of r s d]
      fetchEmployees_missing_worksheet [of r _ d s] fetchEmployees_no_range [of r _ d _ s]
      length_getMockEmployees [of d] department_getMockEmployees [of d]
    by blast
qed

theorem listEmployees_falls_back_to_mock_roster_witness:
  "getAuthenticatedClient remote_down fresh_state = None
   \<and> getEmployeesByDepartment remote_down fresh_state ADNR = Inr (getMockEmployees ADNR)
   \<and> map emp_name (getMockEmployees ADNR)
        = [''James Thomas'', ''Patricia White'', ''Charles Harris'', ''Jessica Lewis'']
   \<and> map emp_id (getMockEmployees ADNR) = [''ADNR-0'', ''ADNR-1'', ''ADNR-2'', ''ADNR-3'']"
proof -
  have c: "getAuthenticatedClient remote_down fresh_state = None"
    by (simp add: getAuthenticatedClient_def remote_down_def fresh_state_def)
  have "map emp_name (getMockEmployees ADNR)
        = [''James Thomas'', ''Patricia White'', ''Charles Harris'', ''Jessica Lewis'']"
    "map emp_id (getMockEmployees ADNR) = [''ADNR-0'', ''ADNR-1'', ''ADNR-2'', ''ADNR-3'']"
    by code_simp+
  with listEmployees_falls_back_to_mock_roster [of remote_down fresh_state ADNR] c
  show ?thesis by blast
qed

section \<open>The all-submitted check\<close>

lemma allSubmitted_iff: "allSubmitted xs \<longleftrightarrow> (\<forall>x\<in>set xs. submitted x)"
  by (simp add: allSubmitted_def list_all_iff)

lemma everyDepartmentSubmitted_iff:
  "everyDepartmentSubmitted xs \<longleftrightarrow> (\<forall>d. \<exists>x\<in>set xs. department x = d \<and> submitted x)"
proof -
  have "set DEPARTMENTS = UNIV"
  proof -
    have "d \<in> set DEPARTMENTS" for d by (cases d) (simp_all add: DEPARTMENTS_def)
    then show ?thesis by blast
  qed
  then show ?thesis
    by (simp add: everyDepartmentSubmitted_def list_all_iff list_ex_iff)
qed

text \<open>
  Where the list holds each of the five departments once, as the list read from the
  worksheets and the synthesised list do, the check is the condition of the
  specification.
\<close>

lemma allSubmitted_on_complete_list:
  assumes "distinct (map department xs)" "set (map department xs) = UNIV"
  shows "allSubmitted xs \<longleftrightarrow> everyDepartmentSubmitted xs"
proof
  assume a: "allSubmitted xs"
  show "everyDepartmentSubmitted xs"
    unfolding everyDepartmentSubmitted_iff
  proof
    fix d
    from assms(2) have "d \<in> department ` set xs" by simp
    then obtain x where "x \<in> set xs" "department x = d" by blast
    with a show "\<exists>x\<in>set xs. department x = d \<and> submitted x"
      by (auto simp add: allSubmitted_iff)
  qed
next
  assume e: "everyDepartmentSubmitted xs"
  have inj: "inj_on department (set xs)"
    using assms(1) by (simp add: distinct_map)
  show "allSubmitted xs"
    unfolding allSubmitted_iff
  proof
    fix x assume x: "x \<in> set xs"
    from e obtain y where y: "y \<in> set xs" "department y = department x" "submitted y"
      unfolding everyDepartmentSubmitted_iff by blast
    with inj x have "y = x" by (auto dest: inj_onD)
    with y show "submitted x" by simp
  qed
qed

text \<open>
  C2 (the code departs from the claim). On a day whose store is empty, with the remote
  side unreachable, one department submits. The list \<open>getDepartmentSubmissions\<close> then
  returns holds that department alone, and \<open>allSubmitted\<close> is true of it although four
  of the five departments have no submitted entry.
\<close>

theorem allSubmitted_after_one_department:
  "fst (getDepartmentSubmissions remote_down noon
          (snd (submitAttendance remote_down morning Animation [john] fresh_state)))
     = Inr [\<lparr>department = Animation, submitted = True,
             submittedAt = Some ''2024-05-06T08:00:00.000Z''\<rparr>]
   \<and> allSubmitted [\<lparr>department = Animation, submitted = True,
                     submittedAt = Some ''2024-05-06T08:00:00.000Z''\<rparr>]
   \<and> \<not> everyDepartmentSubmitted [\<lparr>department = Animation, submitted = True,
                     submittedAt = Some ''2024-05-06T08:00:00.000Z''\<rparr>]"
proof -
  let ?s1 = "snd (submitAttendance remote_down morning Animation [john] fresh_state)"
  let ?entry = "\<lparr>department = Animation, submitted = True,
                  submittedAt = Some ''2024-05-06T08:00:00.000Z''\<rparr>"
  have rd: "readSubmissions fresh_state (submissionsKey (today morning)) = Inr []"
    by (simp add: readSubmissions_def fresh_state_def)
  have "submissions_items ?s1 (submissionsKey (today noon)) = Some (Parsed [?entry])"
    using submitAttendance_returns(2) [OF rd, of remote_down Animation "[john]"]
    by (simp add: markSubmitted_Nil morning_def noon_def)
  then have "getDepartmentSubmissions remote_down noon ?s1 = (Inr (map revive [?entry]), ?s1)"
    by (rule getDepartmentSubmissions_stored) simp
  then have "fst (getDepartmentSubmissions remote_down noon ?s1) = Inr [?entry]"
    by (simp add: revive_def)
  moreover have "allSubmitted [?entry]"
    by (simp add: allSubmitted_def)
  moreover have "\<not> everyDepartmentSubmitted [?entry]"
    by (simp add: everyDepartmentSubmitted_def DEPARTMENTS_def)
  ultimately show ?thesis by blast
qed

section \<open>A second sign-in during an interactive flow\<close>

text \<open>
  C8 (the code departs from the claim). With the interaction flag set, \<open>login\<close> fails
  with the conflict error, whatever the identity library would answer; but the error
  passes through the outer \<open>catch\<close>, which clears the flag, so that after the failed
  attempt the flag of the flow in progress is no longer set.
\<close>

theorem login_conflict_clears_flag:
  "login m \<lparr>initialized = True, interactionInProgress = True, activeAccount = acc\<rparr>
     = (Inl interaction_conflict,
        \<lparr>initialized = True, interactionInProgress = False, activeAccount = acc\<rparr>)"
  by (simp add: login_def loginAttempt_def ensureInitialized_def)


section \<open>The summary over a day\<close>

lemma UNIV_Department: "(UNIV :: Department set) = set DEPARTMENTS"
proof -
  have "d \<in> set DEPARTMENTS" for d by (cases d) (simp_all add: DEPARTMENTS_def)
  then show ?thesis by blast
qed

lemma card_Department: "card (UNIV :: Department set) = 5"
  by (simp add: UNIV_Department DEPARTMENTS_def)

lemma finite_Department: "finite (A :: Department set)"
proof -
  have "A \<subseteq> set DEPARTMENTS" using UNIV_Department by blast
  then show ?thesis by (rule finite_subset) (rule finite_set)
qed

lemma submittedDepartments_Cons: "submittedDepartments (y # ys)
                 = (if submitted y then {department y} else {}) \<union> submittedDepartments ys"
  unfolding submittedDepartments_def by (cases "submitted y") auto

lemma submittedDepartments_Nil: "submittedDepartments [] = {}"
  by (simp add: submittedDepartments_def)

lemma submittedDepartments_markSubmitted:
  "submittedDepartments (markSubmitted d stamp xs) = insert d (submittedDepartments xs)"
proof (induction xs)
  case Nil
  show ?case by (simp add: markSubmitted_Nil submittedDepartments_Cons submittedDepartments_Nil)
next
  case (Cons x xs)
  show ?case
  proof (cases "department x = d")
    case True
    then show ?thesis by (simp add: markSubmitted_Cons submittedDepartments_Cons)
  next
    case False
    then have "submittedDepartments (markSubmitted d stamp (x # xs))
       = (if submitted x then {department x} else {}) \<union> insert d (submittedDepartments xs)"
      by (simp add: markSubmitted_Cons submittedDepartments_Cons Cons.IH)
    also have "\<dots> = insert d (submittedDepartments (x # xs))"
      by (simp add: submittedDepartments_Cons)
    finally show ?thesis .
  qed
qed

lemma allSubmitted_iff_submittedDepartments:
  assumes "distinct (map department xs)" "set (map department xs) = UNIV"
  shows "allSubmitted xs \<longleftrightarrow> submittedDepartments xs = UNIV"
proof -
  have "everyDepartmentSubmitted xs \<longleftrightarrow> submittedDepartments xs = UNIV"
  proof
    assume e: "everyDepartmentSubmitted xs"
    have "d \<in> submittedDepartments xs" for d
    proof -
      from e obtain x where "x \<in> set xs" "department x = d" "submitted x"
        unfolding everyDepartmentSubmitted_iff by blast
      then show ?thesis unfolding submittedDepartments_def by blast
    qed
    then show "submittedDepartments xs = UNIV" by blast
  next
    assume u: "submittedDepartments xs = UNIV"
    show "everyDepartmentSubmitted xs"
      unfolding everyDepartmentSubmitted_iff
    proof
      fix d
      from u have "d \<in> submittedDepartments xs" by simp
      then show "\<exists>x\<in>set xs. department x = d \<and> submitted x"
        unfolding submittedDepartments_def by blast
    qed
  qed
  with allSubmitted_on_complete_list [OF assms] show ?thesis by simp
qed

lemma submitAll_append: "submitAll (xs @ ys) s = submitAll ys (submitAll xs s)"
  by (induction xs arbitrary: s) auto

text \<open>One submission on a day whose stored list holds the five departments.\<close>

lemma submit_on_complete_list:
  assumes st: "submissions_items s (submissionsKey (today clk)) = Some (Parsed xs)"
    and di: "distinct (map department xs)" and un: "set (map department xs) = UNIV"
  shows "\<exists>ys. submissions_items (snd (submitAttendance r clk d employees s))
                 (submissionsKey (today clk)) = Some (Parsed ys)
            \<and> distinct (map department ys) \<and> set (map department ys) = UNIV
            \<and> submittedDepartments ys = insert d (submittedDepartments xs)
            \<and> summaryAttempts (snd (submitAttendance r clk d employees s))
                = summaryAttempts s + (if insert d (submittedDepartments xs) = UNIV then 1 else 0)
            \<and> (allSubmitted ys \<longleftrightarrow> insert d (submittedDepartments xs) = UNIV)"
proof -
  let ?ys = "markSubmitted d (now clk) xs"
  from st have rd: "readSubmissions s (submissionsKey (today clk)) = Inr xs"
    by (simp add: readSubmissions_def)
  from un have "d \<in> set (map department xs)" by simp
  then have same: "map department ?ys = map department xs"
    by (simp add: departments_markSubmitted)
  with di un have c: "distinct (map department ?ys)" "set (map department ?ys) = UNIV"
    by simp_all
  have sub: "submittedDepartments ?ys = insert d (submittedDepartments xs)"
    by (rule submittedDepartments_markSubmitted)
  have all: "allSubmitted ?ys \<longleftrightarrow> insert d (submittedDepartments xs) = UNIV"
    using allSubmitted_iff_submittedDepartments [OF c] sub by simp
  from submitAttendance_returns(2,5) [OF rd, of r d employees] c sub all
  show ?thesis by (intro exI [of _ ?ys]) simp
qed

lemma submitAll_on_complete_list:
  assumes "submissions_items s (submissionsKey date) = Some (Parsed xs)"
    and "distinct (map department xs)" and "set (map department xs) = UNIV"
    and "list_all (\<lambda>c. today (call_clock c) = date) calls"
  shows "\<exists>ys. submissions_items (submitAll calls s) (submissionsKey date) = Some (Parsed ys)
            \<and> distinct (map department ys) \<and> set (map department ys) = UNIV
            \<and> submittedDepartments ys
                = submittedDepartments xs \<union> set (map call_department calls)
            \<and> (submittedDepartments xs \<union> set (map call_department calls) \<noteq> UNIV
                 \<longrightarrow> summaryAttempts (submitAll calls s) = summaryAttempts s
                     \<and> \<not> allSubmitted ys)"
  using assms
proof (induction calls arbitrary: s xs)
  case Nil
  then show ?case
    using allSubmitted_iff_submittedDepartments [of xs] by auto
next
  case (Cons c calls)
  obtain r clk d employees where c: "c = (r, clk, d, employees)" by (cases c)
  from Cons.prems(4) c have day: "today clk = date"
    and days: "list_all (\<lambda>c. today (call_clock c) = date) calls"
    by (simp_all add: call_clock_def)
  let ?s1 = "snd (submitAttendance r clk d employees s)"
  from submit_on_complete_list [of s clk xs r d employees] Cons.prems(1,2,3) day
  obtain ys where ys: "submissions_items ?s1 (submissionsKey date) = Some (Parsed ys)"
    "distinct (map department ys)" "set (map department ys) = UNIV"
    "submittedDepartments ys = insert d (submittedDepartments xs)"
    "summaryAttempts ?s1
       = summaryAttempts s + (if insert d (submittedDepartments xs) = UNIV then 1 else 0)"
    by auto
  from Cons.IH [OF ys(1,2,3) days]
  obtain zs where zs: "submissions_items (submitAll calls ?s1) (submissionsKey date) = Some (Parsed zs)"
    "distinct (map department zs)" "set (map department zs) = UNIV"
    "submittedDepartments zs = submittedDepartments ys \<union> set (map call_department calls)"
    "submittedDepartments ys \<union> set (map call_department calls) \<noteq> UNIV
       \<longrightarrow> summaryAttempts (submitAll calls ?s1) = summaryAttempts ?s1 \<and> \<not> allSubmitted zs"
    by blast
  have u: "submittedDepartments ys \<union> set (map call_department calls)
             = submittedDepartments xs \<union> set (map call_department (c # calls))"
    using ys(4) c by (auto simp add: call_department_def)
  have "summaryAttempts (submitAll (c # calls) s) = summaryAttempts s \<and> \<not> allSubmitted zs"
    if ne: "submittedDepartments xs \<union> set (map call_department (c # calls)) \<noteq> UNIV"
  proof -
    from ne u have "insert d (submittedDepartments xs) \<noteq> UNIV"
      using ys(4) by auto
    with ys(5) have "summaryAttempts ?s1 = summaryAttempts s" by simp
    with zs(5) ne u show ?thesis by (simp add: c)
  qed
  with zs u show ?case by (intro exI [of _ zs]) (simp add: c)
qed


lemma submittedDepartments_none:
  "list_all (\<lambda>x. \<not> submitted x) xs \<Longrightarrow> submittedDepartments xs = {}"
  by (auto simp add: submittedDepartments_def list_all_iff)

lemma five_departments_are_all:
  assumes "length ds = 5" "distinct ds"
  shows "set ds = (UNIV :: Department set)"
proof -
  from assms have "card (set ds) = card (UNIV :: Department set)"
    by (simp add: distinct_card card_Department)
  then show ?thesis
    using card_subset_eq [of UNIV "set ds"] finite_Department [of UNIV] by simp
qed

lemma fewer_departments_are_not_all:
  assumes "length ds < 5"
  shows "set ds \<noteq> (UNIV :: Department set)"
proof
  assume "set ds = UNIV"
  then have "card (set ds) = 5" by (simp add: card_Department)
  moreover have "card (set ds) \<le> length ds" by (rule card_length)
  ultimately show False using assms by simp
qed

text \<open>
  C3 (amended). On a day whose stored list holds each of the five departments once and
  none of them submitted, let the five departments submit one after the other, in any
  order. After any \<open>k < 5\<close> of the submissions no summary send has been attempted and
  \<open>allSubmitted\<close> is false of the stored list; after the fifth exactly one has been
  attempted and \<open>allSubmitted\<close> is true; a further submission on that day attempts the
  send once more.
\<close>

theorem summary_attempted_at_fifth_submission:
  assumes "submissions_items s (submissionsKey date) = Some (Parsed submissions)"
    and "distinct (map department submissions)"
    and "set (map department submissions) = set DEPARTMENTS"
    and "list_all (\<lambda>x. \<not> submitted x) submissions"
    and "length calls = 5"
    and "distinct (map call_department calls)"
    and "list_all (\<lambda>c. today (call_clock c) = date) (calls @ [again])"
    and "k < 5"
  shows "summaryAttempts (submitAll (take k calls) s) = summaryAttempts s
     \<and> (\<exists>stored. submissions_items (submitAll (take k calls) s) (submissionsKey date)
                     = Some (Parsed stored) \<and> \<not> allSubmitted stored)
     \<and> summaryAttempts (submitAll calls s) = summaryAttempts s + 1
     \<and> (\<exists>stored. submissions_items (submitAll calls s) (submissionsKey date)
                     = Some (Parsed stored) \<and> allSubmitted stored)
     \<and> summaryAttempts (submitAll (calls @ [again]) s) = summaryAttempts s + 2"
proof -
  let ?key = "submissionsKey date"
  from assms(3) have un: "set (map department submissions) = UNIV"
    by (simp add: UNIV_Department)
  from assms(4) have none: "submittedDepartments submissions = {}"
    by (rule submittedDepartments_none)
  from assms(7) have days: "list_all (\<lambda>c. today (call_clock c) = date) calls"
    and day6: "today (call_clock again) = date" by simp_all
  have before: "summaryAttempts (submitAll (take j calls) s) = summaryAttempts s
     \<and> (\<exists>stored. submissions_items (submitAll (take j calls) s) ?key = Some (Parsed stored)
            \<and> distinct (map department stored) \<and> set (map department stored) = UNIV
            \<and> submittedDepartments stored = set (map call_department (take j calls))
            \<and> \<not> allSubmitted stored)" if "j < 5" for j
  proof -
    from days have d: "list_all (\<lambda>c. today (call_clock c) = date) (take j calls)"
      by (auto simp add: list_all_iff dest: in_set_takeD)
    from that assms(5) have "length (map call_department (take j calls)) < 5" by simp
    then have "set (map call_department (take j calls)) \<noteq> UNIV"
      by (rule fewer_departments_are_not_all)
    with submitAll_on_complete_list [OF assms(1,2) un d] none show ?thesis by auto
  qed
  from before [of 4] obtain stored4 where s4:
    "summaryAttempts (submitAll (take 4 calls) s) = summaryAttempts s"
    "submissions_items (submitAll (take 4 calls) s) ?key = Some (Parsed stored4)"
    "distinct (map department stored4)" "set (map department stored4) = UNIV"
    "submittedDepartments stored4 = set (map call_department (take 4 calls))"
    by auto
  obtain r clk d employees where c5: "calls ! 4 = (r, clk, d, employees)"
    by (cases "calls ! 4")
  from assms(5) have split5: "calls = take 4 calls @ [calls ! 4]"
    by (simp add: take_Suc_conv_app_nth [symmetric])
  have day5: "today clk = date"
  proof -
    from assms(5) have "calls ! 4 \<in> set calls" by simp
    with days have "today (call_clock (calls ! 4)) = date" by (simp add: list_all_iff)
    with c5 show ?thesis by (simp add: call_clock_def)
  qed
  have all5: "insert d (set (map call_department (take 4 calls))) = UNIV"
  proof -
    have "set (map call_department calls)
            = insert d (set (map call_department (take 4 calls)))"
      by (subst split5) (simp add: c5 call_department_def)
    moreover have "set (map call_department calls) = UNIV"
      using assms(5,6) by (intro five_departments_are_all) simp_all
    ultimately show ?thesis by simp
  qed
  let ?s4 = "submitAll (take 4 calls) s"
  let ?s5 = "snd (submitAttendance r clk d employees ?s4)"
  have run5: "submitAll calls s = ?s5"
    by (subst split5) (simp add: submitAll_append c5)
  from submit_on_complete_list [of ?s4 clk stored4 r d employees] s4 day5 all5
  obtain stored5 where s5:
    "submissions_items ?s5 ?key = Some (Parsed stored5)"
    "distinct (map department stored5)" "set (map department stored5) = UNIV"
    "submittedDepartments stored5 = UNIV"
    "summaryAttempts ?s5 = summaryAttempts s + 1" "allSubmitted stored5"
    by auto
  obtain r6 clk6 d6 employees6 where c6: "again = (r6, clk6, d6, employees6)"
    by (cases again)
  with day6 have day6': "today clk6 = date" by (simp add: call_clock_def)
  let ?s6 = "snd (submitAttendance r6 clk6 d6 employees6 ?s5)"
  have run6: "submitAll (calls @ [again]) s = ?s6"
    by (simp add: submitAll_append run5 c6)
  from submit_on_complete_list [of ?s5 clk6 stored5 r6 d6 employees6] s5 day6'
  have s6: "summaryAttempts ?s6 = summaryAttempts s + 2"
    by auto
  from before [OF assms(8)] s5 s6 run5 run6 show ?thesis
    by auto
qed


theorem summary_attempted_at_fifth_submission_witness:
  "submissions_items pending_state (submissionsKey ''2024-05-06'') = Some (Parsed five_pending)
   \<and> distinct (map department five_pending)
   \<and> set (map department five_pending) = set DEPARTMENTS
   \<and> list_all (\<lambda>x. \<not> submitted x) five_pending
   \<and> length day_calls = 5
   \<and> distinct (map call_department day_calls)
   \<and> list_all (\<lambda>c. today (call_clock c) = ''2024-05-06'') (day_calls @ [once_more])
   \<and> summaryAttempts pending_state = 0
   \<and> summaryAttempts (submitAll (take 4 day_calls) pending_state) = 0
   \<and> summaryAttempts (submitAll day_calls pending_state) = 1
   \<and> summaryAttempts (submitAll (day_calls @ [once_more]) pending_state) = 2"
proof -
  have h1: "submissions_items pending_state (submissionsKey ''2024-05-06'')
              = Some (Parsed five_pending)"
    by (simp add: pending_state_def)
  have h2: "distinct (map department five_pending)"
    and h3: "set (map department five_pending) = set DEPARTMENTS"
    and h4: "list_all (\<lambda>x. \<not> submitted x) five_pending"
    by (simp_all add: five_pending_def DEPARTMENTS_def not_submitted_def)
  have h5: "length day_calls = 5"
    and h6: "distinct (map call_department day_calls)"
    and h7: "list_all (\<lambda>c. today (call_clock c) = ''2024-05-06'') (day_calls @ [once_more])"
    by (simp_all add: day_calls_def once_more_def DEPARTMENTS_def call_department_def
          call_clock_def morning_def noon_def)
  have h8: "(4::nat) < 5" by simp
  have z: "summaryAttempts pending_state = 0"
    by (simp add: summaryAttempts_def pending_state_def fresh_state_def)
  from summary_attempted_at_fifth_submission [OF h1 h2 h3 h4 h5 h6 h7 h8] z
    h1 h2 h3 h4 h5 h6 h7
  show ?thesis by simp
qed

text \<open>
  C3 as stated fails twice. On a day whose store is empty the stored list only holds the
  departments that have submitted, so that each of the first four submissions already
  attempts the summary send; and on a day that starts with the five departments pending,
  a submission after the fifth attempts the send a second time.
\<close>

theorem summary_attempted_before_and_after_completion:
  "summaryAttempts fresh_state = 0
   \<and> summaryAttempts (submitAll (take 4 day_calls) fresh_state) = 4
   \<and> summaryAttempts pending_state = 0
   \<and> summaryAttempts (submitAll (day_calls @ [once_more]) pending_state) = 2"
  by code_simp


section \<open>The status written for an employee\<close>

















end
